theory Spec2Isabelle
  imports Main
begin

section \<open>Data model (shared/schema.ts)\<close>

text \<open>
  The tables of the schema, each a list of rows in insertion order. Columns that no ledger
  or scheduler operation reads (names, account and category type tags, createdAt) are left
  out. A timestamp is its time value, the milliseconds since the epoch.
\<close>

subsection \<open>The values of a \<open>decimal(12, 2)\<close> column\<close>

text \<open>
  A \<open>decimal(12, 2)\<close> column holds a number with two decimals, modelled by its value in
  hundredths, or the special value NaN, which the column's type accepts next to the
  numbers. The driver hands a value over as a string. The code reads it with parseFloat
  (NaN for the string NaN), negates and adds in double precision (NaN as soon as an operand
  is NaN) and writes the sum back with toString, which the column rounds to two decimals
  again: on the numbers the column can hold the arithmetic is the exact one on hundredths.
  An amount that arrives as a string is taken as the value the column's input conversion
  reads from it; a string that the conversion refuses (an infinity, a malformed number) is
  refused as a number out of range is.
\<close>

datatype decimal = Number int | NaN

instantiation decimal :: "{comm_monoid_add, uminus, minus}"
begin

definition zero_decimal :: decimal where
  "zero_decimal = Number 0"

definition plus_decimal :: "decimal \<Rightarrow> decimal \<Rightarrow> decimal" where
  "plus_decimal x y =
     (case x of NaN \<Rightarrow> NaN
      | Number a \<Rightarrow> (case y of NaN \<Rightarrow> NaN | Number b \<Rightarrow> Number (a + b)))"

definition uminus_decimal :: "decimal \<Rightarrow> decimal" where
  "uminus_decimal x = (case x of NaN \<Rightarrow> NaN | Number a \<Rightarrow> Number (- a))"

definition minus_decimal :: "decimal \<Rightarrow> decimal \<Rightarrow> decimal" where
  "minus_decimal x y = x + (- y)"

instance
proof
  fix a b c :: decimal
  show "a + b + c = a + (b + c)"
    by (simp add: plus_decimal_def split: decimal.splits)
  show "a + b = b + a"
    by (simp add: plus_decimal_def split: decimal.splits)
  show "0 + a = a"
    by (simp add: plus_decimal_def zero_decimal_def split: decimal.splits)
qed

end

subsection \<open>The tables\<close>

datatype transactionType = income | expense

datatype frequency = daily | weekly | monthly

record account =
  a_id :: nat
  a_balance :: decimal
  a_userId :: nat

record category =
  c_id :: nat
  c_userId :: nat

record transaction =
  t_id :: nat
  t_amount :: decimal
  t_date :: int
  t_description :: string
  t_type :: transactionType
  t_accountId :: nat
  t_categoryId :: nat
  t_userId :: nat

record recurringTransaction =
  r_id :: nat
  r_amount :: decimal
  r_description :: string
  r_type :: transactionType
  r_frequency :: frequency
  r_nextRunDate :: int
  r_accountId :: nat
  r_categoryId :: nat
  r_userId :: nat
  r_isActive :: bool

text \<open>\<open>InsertTransaction & { userId }\<close>: a transaction row without its id.\<close>

record insertTransaction =
  i_amount :: decimal
  i_date :: int
  i_description :: string
  i_type :: transactionType
  i_accountId :: nat
  i_categoryId :: nat
  i_userId :: nat

text \<open>\<open>Partial<InsertTransaction>\<close>: every field optional.\<close>

record transactionPatch =
  p_amount :: "decimal option"
  p_date :: "int option"
  p_description :: "string option"
  p_type :: "transactionType option"
  p_accountId :: "nat option"
  p_categoryId :: "nat option"

text \<open>
  The database: the users table by its ids, the four tables the ledger and the scheduler
  touch, and the sequence behind the serial id of the transactions table. Of the sequence
  only the freshness of the ids it hands out matters; that a refused insert uses up a
  value is not modelled.
\<close>

record db =
  users :: "nat list"
  accounts :: "account list"
  categories :: "category list"
  transactions :: "transaction list"
  recurringTransactions :: "recurringTransaction list"
  transactions_id_seq :: nat

text \<open>
  What a call can throw: the two errors of the database that the schema's column types and
  references give rise to, the query builder's refusal of an empty SET, the storage layer's
  own \<open>Error('Transaction not found')\<close>, and the TypeError of reading a property of
  \<open>undefined\<close>.
\<close>

datatype error =
  ForeignKeyViolation | NumericFieldOverflow | NoValuesToSet | TransactionNotFound | TypeError

section \<open>Database primitives\<close>

text \<open>A \<open>decimal(12, 2)\<close> column holds the numbers of absolute value below 10^10, that
  is below 10^12 hundredths, and NaN; a write of a number outside is refused.\<close>

definition numeric_12_2 :: "decimal \<Rightarrow> bool" where
  "numeric_12_2 v = (case v of NaN \<Rightarrow> True | Number h \<Rightarrow> - (10 ^ 12) < h \<and> h < 10 ^ 12)"

definition account_exists :: "db \<Rightarrow> nat \<Rightarrow> bool" where
  "account_exists d i = (i \<in> a_id ` set (accounts d))"

definition category_exists :: "db \<Rightarrow> nat \<Rightarrow> bool" where
  "category_exists d i = (i \<in> c_id ` set (categories d))"

definition user_exists :: "db \<Rightarrow> nat \<Rightarrow> bool" where
  "user_exists d i = (i \<in> set (users d))"

text \<open>\<open>db.insert(transactions).values(transaction).returning()\<close>: the row gets the next
  value of the sequence; the amount must fit its column and the three references must
  point at existing rows.\<close>

definition insert_transaction :: "db \<Rightarrow> insertTransaction \<Rightarrow> error + (db \<times> transaction)" where
  "insert_transaction d i =
     (if \<not> numeric_12_2 (i_amount i) then Inl NumericFieldOverflow
      else if \<not> (account_exists d (i_accountId i) \<and> category_exists d (i_categoryId i)
                  \<and> user_exists d (i_userId i)) then Inl ForeignKeyViolation
      else
        let row = \<lparr>t_id = transactions_id_seq d, t_amount = i_amount i, t_date = i_date i,
                   t_description = i_description i, t_type = i_type i,
                   t_accountId = i_accountId i, t_categoryId = i_categoryId i,
                   t_userId = i_userId i\<rparr>
        in Inr (d\<lparr>transactions := transactions d @ [row],
                   transactions_id_seq := Suc (transactions_id_seq d)\<rparr>, row))"

text \<open>\<open>const [currentAccount] = await db.select().from(accounts).where(eq(accounts.id, id))\<close>:
  the first matching row, or undefined.\<close>

definition select_account :: "db \<Rightarrow> nat \<Rightarrow> account option" where
  "select_account d i = find (\<lambda>a. a_id a = i) (accounts d)"

text \<open>\<open>db.update(accounts).set({ balance }).where(eq(accounts.id, id))\<close>.\<close>

definition update_balance :: "db \<Rightarrow> nat \<Rightarrow> decimal \<Rightarrow> error + db" where
  "update_balance d i b =
     (if numeric_12_2 b
      then Inr (d\<lparr>accounts := map (\<lambda>a. if a_id a = i then a\<lparr>a_balance := b\<rparr> else a) (accounts d)\<rparr>)
      else Inl NumericFieldOverflow)"

text \<open>The SET clause of a patch, applied to one row.\<close>

definition apply_patch :: "transactionPatch \<Rightarrow> transaction \<Rightarrow> transaction" where
  "apply_patch p t =
     t\<lparr>t_amount := (case p_amount p of None \<Rightarrow> t_amount t | Some v \<Rightarrow> v),
       t_date := (case p_date p of None \<Rightarrow> t_date t | Some v \<Rightarrow> v),
       t_description := (case p_description p of None \<Rightarrow> t_description t | Some v \<Rightarrow> v),
       t_type := (case p_type p of None \<Rightarrow> t_type t | Some v \<Rightarrow> v),
       t_accountId := (case p_accountId p of None \<Rightarrow> t_accountId t | Some v \<Rightarrow> v),
       t_categoryId := (case p_categoryId p of None \<Rightarrow> t_categoryId t | Some v \<Rightarrow> v)\<rparr>"

definition patch_empty :: "transactionPatch \<Rightarrow> bool" where
  "patch_empty p =
     (p_amount p = None \<and> p_date p = None \<and> p_description p = None \<and> p_type p = None
      \<and> p_accountId p = None \<and> p_categoryId p = None)"

definition patch_valid :: "db \<Rightarrow> transactionPatch \<Rightarrow> bool" where
  "patch_valid d p =
     ((case p_accountId p of None \<Rightarrow> True | Some a \<Rightarrow> account_exists d a)
      \<and> (case p_categoryId p of None \<Rightarrow> True | Some c \<Rightarrow> category_exists d c))"

text \<open>\<open>db.update(transactions).set(transaction).where(and(eq(id), eq(userId))).returning()\<close>:
  the rows that match are rewritten and returned.\<close>

definition update_transactions ::
  "db \<Rightarrow> nat \<Rightarrow> nat \<Rightarrow> transactionPatch \<Rightarrow> error + (db \<times> transaction list)" where
  "update_transactions d i u p =
     (if patch_empty p then Inl NoValuesToSet
      else if \<not> (case p_amount p of None \<Rightarrow> True | Some v \<Rightarrow> numeric_12_2 v)
        then Inl NumericFieldOverflow
      else if \<not> patch_valid d p then Inl ForeignKeyViolation
      else Inr (d\<lparr>transactions :=
                    map (\<lambda>t. if t_id t = i \<and> t_userId t = u then apply_patch p t else t)
                      (transactions d)\<rparr>,
                map (apply_patch p) (filter (\<lambda>t. t_id t = i \<and> t_userId t = u) (transactions d))))"

text \<open>\<open>db.delete(transactions).where(and(eq(id), eq(userId)))\<close>.\<close>

definition delete_transactions :: "db \<Rightarrow> nat \<Rightarrow> nat \<Rightarrow> db" where
  "delete_transactions d i u =
     d\<lparr>transactions := filter (\<lambda>t. \<not> (t_id t = i \<and> t_userId t = u)) (transactions d)\<rparr>"

section \<open>Ledger mutations (server/storage.ts)\<close>

definition getTransaction :: "db \<Rightarrow> nat \<Rightarrow> nat \<Rightarrow> transaction option" where
  "getTransaction d i u = find (\<lambda>t. t_id t = i \<and> t_userId t = u) (transactions d)"

text \<open>
  Every operation returns the database it leaves behind together with its result or the
  error it threw: no operation runs inside a database transaction, so what was written
  before a throw stays written.
\<close>

definition createTransaction :: "db \<Rightarrow> insertTransaction \<Rightarrow> db \<times> (error + transaction)" where
  "createTransaction d i =
     (case insert_transaction d i of
        Inl e \<Rightarrow> (d, Inl e)
      | Inr (d1, newTransaction) \<Rightarrow>
          let amount = t_amount newTransaction;
              balanceChange = (if t_type newTransaction = income then amount else - amount)
          in (case select_account d1 (t_accountId newTransaction) of
                None \<Rightarrow> (d1, Inl TypeError)
              | Some currentAccount \<Rightarrow>
                  let currentBalance = a_balance currentAccount
                  in (case update_balance d1 (t_accountId newTransaction)
                             (currentBalance + balanceChange) of
                        Inl e \<Rightarrow> (d1, Inl e)
                      | Inr d2 \<Rightarrow> (d2, Inr newTransaction))))"

definition updateTransaction ::
  "db \<Rightarrow> nat \<Rightarrow> nat \<Rightarrow> transactionPatch \<Rightarrow> db \<times> (error + transaction)" where
  "updateTransaction d i u p =
     (case getTransaction d i u of
        None \<Rightarrow> (d, Inl TransactionNotFound)
      | Some original \<Rightarrow>
          (case update_transactions d i u p of
             Inl e \<Rightarrow> (d, Inl e)
           | Inr (d1, rows) \<Rightarrow>
               let originalAmount = t_amount original;
                   originalBalanceChange =
                     (if t_type original = income then - originalAmount else originalAmount)
               in (case select_account d1 (t_accountId original) of
                     None \<Rightarrow> (d1, Inl TypeError)
                   | Some currentAccount \<Rightarrow>
                       (case update_balance d1 (t_accountId original)
                               (a_balance currentAccount + originalBalanceChange) of
                          Inl e \<Rightarrow> (d1, Inl e)
                        | Inr d2 \<Rightarrow>
                            (case rows of
                               [] \<Rightarrow> (d2, Inl TypeError)
                             | updatedTransaction # _ \<Rightarrow>
                                 let newAmount = t_amount updatedTransaction;
                                     newBalanceChange =
                                       (if t_type updatedTransaction = income then newAmount
                                        else - newAmount)
                                 in (case select_account d2 (t_accountId updatedTransaction) of
                                       None \<Rightarrow> (d2, Inl TypeError)
                                     | Some newAccount \<Rightarrow>
                                         (case update_balance d2 (t_accountId updatedTransaction)
                                                 (a_balance newAccount + newBalanceChange) of
                                            Inl e \<Rightarrow> (d2, Inl e)
                                          | Inr d3 \<Rightarrow> (d3, Inr updatedTransaction))))))))"

definition deleteTransaction :: "db \<Rightarrow> nat \<Rightarrow> nat \<Rightarrow> db \<times> (error + unit)" where
  "deleteTransaction d i u =
     (case getTransaction d i u of
        None \<Rightarrow> (d, Inl TransactionNotFound)
      | Some transaction \<Rightarrow>
          let amount = t_amount transaction;
              balanceChange = (if t_type transaction = income then - amount else amount)
          in (case select_account d (t_accountId transaction) of
                None \<Rightarrow> (d, Inl TypeError)
              | Some currentAccount \<Rightarrow>
                  (case update_balance d (t_accountId transaction)
                          (a_balance currentAccount + balanceChange) of
                     Inl e \<Rightarrow> (d, Inl e)
                   | Inr d1 \<Rightarrow> (delete_transactions d1 i u, Inr ()))))"

text \<open>The balance the accounts table holds for an account id.\<close>

definition balance_of :: "db \<Rightarrow> nat \<Rightarrow> decimal option" where
  "balance_of d i = map_option a_balance (select_account d i)"

text \<open>The signed amount a transaction contributes to its account.\<close>

definition delta :: "transaction \<Rightarrow> decimal" where
  "delta t = (if t_type t = income then t_amount t else - t_amount t)"

text \<open>The sums of the amounts of the income and of the expense transactions that
  reference an account.\<close>

definition income_sum :: "db \<Rightarrow> nat \<Rightarrow> decimal" where
  "income_sum d a =
     sum_list (map t_amount (filter (\<lambda>t. t_accountId t = a \<and> t_type t = income) (transactions d)))"

definition expense_sum :: "db \<Rightarrow> nat \<Rightarrow> decimal" where
  "expense_sum d a =
     sum_list (map t_amount (filter (\<lambda>t. t_accountId t = a \<and> t_type t = expense) (transactions d)))"

text \<open>The ledger invariant, for the balances \<open>initial\<close> the accounts were created with:
  every account row holds its initial balance plus its income minus its expenses.\<close>

definition ledger_consistent :: "(nat \<Rightarrow> decimal) \<Rightarrow> db \<Rightarrow> bool" where
  "ledger_consistent initial d =
     list_all (\<lambda>a. a_balance a = initial (a_id a) + income_sum d (a_id a) - expense_sum d (a_id a))
       (accounts d)"

text \<open>What the schema promises of every stored transactions table: the id is a primary
  key, and every id was handed out by the sequence.\<close>

definition transactions_pkey :: "db \<Rightarrow> bool" where
  "transactions_pkey d =
     (distinct (map t_id (transactions d))
      \<and> list_all (\<lambda>t. t_id t < transactions_id_seq d) (transactions d))"

text \<open>Every stored balance fits its column.\<close>

definition balances_in_range :: "db \<Rightarrow> bool" where
  "balances_in_range d = list_all (\<lambda>a. numeric_12_2 (a_balance a)) (accounts d)"

text \<open>Every stored amount is a number, and a call sends no amount that is NaN.\<close>

definition amounts_are_numbers :: "db \<Rightarrow> bool" where
  "amounts_are_numbers d = list_all (\<lambda>t. t_amount t \<noteq> NaN) (transactions d)"

text \<open>A sequence of ledger calls, each of which has to return: the run is \<open>None\<close> as soon
  as one call throws.\<close>

datatype operation =
  Create insertTransaction
  | Update nat nat transactionPatch
  | Delete nat nat

definition perform :: "db \<Rightarrow> operation \<Rightarrow> db option" where
  "perform d x =
     (case x of
        Create i \<Rightarrow> (case createTransaction d i of (d', Inr _) \<Rightarrow> Some d' | (_, Inl _) \<Rightarrow> None)
      | Update i u p \<Rightarrow> (case updateTransaction d i u p of (d', Inr _) \<Rightarrow> Some d' | (_, Inl _) \<Rightarrow> None)
      | Delete i u \<Rightarrow> (case deleteTransaction d i u of (d', Inr _) \<Rightarrow> Some d' | (_, Inl _) \<Rightarrow> None))"

fun perform_all :: "db \<Rightarrow> operation list \<Rightarrow> db option" where
  "perform_all d [] = Some d"
| "perform_all d (x # xs) = (case perform d x of None \<Rightarrow> None | Some d' \<Rightarrow> perform_all d' xs)"

definition amount_is_number :: "operation \<Rightarrow> bool" where
  "amount_is_number x =
     (case x of
        Create i \<Rightarrow> i_amount i \<noteq> NaN
      | Update i u p \<Rightarrow> p_amount p \<noteq> Some NaN
      | Delete i u \<Rightarrow> True)"

section \<open>Dates (the Date methods the scheduler calls)\<close>

text \<open>
  A Date is its time value. The scheduler's route calls \<open>getDate\<close>, \<open>setDate\<close>,
  \<open>getMonth\<close> and \<open>setMonth\<close>; they are modelled by the algorithms of the ECMAScript
  specification (Day, TimeWithinDay, DaysInYear, DayFromYear, YearFromTime, InLeapYear,
  DayWithinYear, MonthFromTime, DateFromTime, MakeDay, MakeDate), with the local time zone
  taken to be UTC and time values inside the range a Date can hold. \<open>YearFromTime\<close>, the
  largest year that starts at or before the time value, is found by a search from an
  estimate, first down and then up; \<open>MakeDay\<close> is the day number of the first of the
  month, plus the date, minus one.
\<close>

definition msPerDay :: int where
  "msPerDay = 86400000"

definition Day :: "int \<Rightarrow> int" where
  "Day t = t div msPerDay"

definition TimeWithinDay :: "int \<Rightarrow> int" where
  "TimeWithinDay t = t mod msPerDay"

definition DaysInYear :: "int \<Rightarrow> int" where
  "DaysInYear y =
     (if y mod 4 \<noteq> 0 then 365 else if y mod 100 \<noteq> 0 then 366
      else if y mod 400 \<noteq> 0 then 365 else 366)"

definition DayFromYear :: "int \<Rightarrow> int" where
  "DayFromYear y =
     365 * (y - 1970) + (y - 1969) div 4 - (y - 1901) div 100 + (y - 1601) div 400"

lemma div_step:
  fixes x k :: int
  assumes "0 < k"
  shows "(x + 1) div k = x div k + (if (x + 1) mod k = 0 then 1 else 0)"
proof (cases "(x + 1) mod k = 0")
  case True
  then obtain q where q: "x + 1 = k * q" by (auto simp: mod_eq_0_iff_dvd)
  then have "x = k * (q - 1) + (k - 1)" by (simp add: algebra_simps)
  moreover have "(k * (q - 1) + (k - 1)) div k = q - 1"
    using assms by (simp add: div_pos_pos_trivial)
  ultimately have "x div k = q - 1" by simp
  moreover have "(x + 1) div k = q" using q assms by simp
  ultimately show ?thesis using True by simp
next
  case False
  have r: "0 \<le> x mod k" "x mod k < k" using assms by simp_all
  have "x mod k + 1 \<noteq> k"
  proof
    assume "x mod k + 1 = k"
    have "(x + 1) mod k = (x mod k + 1) mod k" by (simp add: mod_add_left_eq)
    also have "\<dots> = k mod k" using \<open>x mod k + 1 = k\<close> by simp
    finally have "(x + 1) mod k = 0" by simp
    with False show False by simp
  qed
  with r have lt: "x mod k + 1 < k" by simp
  define r' where "r' = x mod k + 1"
  have r': "0 \<le> r'" "r' < k" using r lt by (simp_all add: r'_def)
  have "x + 1 = r' + k * (x div k)" by (simp add: r'_def)
  then have "(x + 1) div k = (r' + k * (x div k)) div k" by (simp only:)
  also have "\<dots> = x div k + r' div k" using assms by simp
  also have "r' div k = 0" using r' by (simp add: div_pos_pos_trivial)
  finally show ?thesis using False by simp
qed

lemma mod_shift:
  fixes y :: int
  shows "(y - 1968) mod 4 = y mod 4" and "(y - 1900) mod 100 = y mod 100"
    and "(y - 1600) mod 400 = y mod 400"
proof -
  have "y - 1968 = y + 4 * (- 492)" "y - 1900 = y + 100 * (- 19)" "y - 1600 = y + 400 * (- 4)"
    by simp_all
  then show "(y - 1968) mod 4 = y mod 4" and "(y - 1900) mod 100 = y mod 100"
    and "(y - 1600) mod 400 = y mod 400"
    by (simp_all only: mod_mult_self2)
qed

lemma DayFromYear_next: "DayFromYear (y + 1) = DayFromYear y + DaysInYear y"
proof -
  have a: "(y + 1 - 1969) div 4 = (y - 1969) div 4 + (if y mod 4 = 0 then 1 else 0)"
    using div_step[of 4 "y - 1969"] mod_shift(1)[of y] by simp
  have b: "(y + 1 - 1901) div 100 = (y - 1901) div 100 + (if y mod 100 = 0 then 1 else 0)"
    using div_step[of 100 "y - 1901"] mod_shift(2)[of y] by simp
  have c: "(y + 1 - 1601) div 400 = (y - 1601) div 400 + (if y mod 400 = 0 then 1 else 0)"
    using div_step[of 400 "y - 1601"] mod_shift(3)[of y] by simp
  have d: "y mod 400 = 0 \<Longrightarrow> y mod 100 = 0"
    using mod_mod_cancel[of 100 400 y] by simp
  have e: "y mod 100 = 0 \<Longrightarrow> y mod 4 = 0"
    using mod_mod_cancel[of 4 100 y] by simp
  show ?thesis
    unfolding DayFromYear_def DaysInYear_def a b c using d e by auto
qed

lemma DaysInYear_pos: "365 \<le> DaysInYear y"
  by (simp add: DaysInYear_def)

lemma DayFromYear_less: "DayFromYear (y - 1) < DayFromYear y"
  using DayFromYear_next[of "y - 1"] DaysInYear_pos[of "y - 1"] by simp

function yearDown :: "int \<Rightarrow> int \<Rightarrow> int" where
  "yearDown d y = (if d < DayFromYear y then yearDown d (y - 1) else y)"
  by pat_completeness auto
termination
proof (relation "measure (\<lambda>(d, y). nat (DayFromYear y - d))")
  show "wf (measure (\<lambda>(d, y). nat (DayFromYear y - d)))" by simp
next
  fix d y :: int
  assume "d < DayFromYear y"
  then show "((d, y - 1), (d, y)) \<in> measure (\<lambda>(d, y). nat (DayFromYear y - d))"
    using DayFromYear_less[of y] by simp
qed

function yearUp :: "int \<Rightarrow> int \<Rightarrow> int" where
  "yearUp d y = (if DayFromYear (y + 1) \<le> d then yearUp d (y + 1) else y)"
  by pat_completeness auto
termination
proof (relation "measure (\<lambda>(d, y). nat (d + 1 - DayFromYear (y + 1)))")
  show "wf (measure (\<lambda>(d, y). nat (d + 1 - DayFromYear (y + 1))))" by simp
next
  fix d y :: int
  assume "DayFromYear (y + 1) \<le> d"
  then show "((d, y + 1), (d, y)) \<in> measure (\<lambda>(d, y). nat (d + 1 - DayFromYear (y + 1)))"
    using DayFromYear_less[of "y + 1 + 1"] by (simp add: add.commute)
qed

definition YearFromTime :: "int \<Rightarrow> int" where
  "YearFromTime t = yearUp (Day t) (yearDown (Day t) (1970 + Day t div 365))"

definition InLeapYear :: "int \<Rightarrow> int" where
  "InLeapYear t = (if DaysInYear (YearFromTime t) = 365 then 0 else 1)"

definition DayWithinYear :: "int \<Rightarrow> int" where
  "DayWithinYear t = Day t - DayFromYear (YearFromTime t)"

definition MonthFromTime :: "int \<Rightarrow> int" where
  "MonthFromTime t =
     (let d = DayWithinYear t; l = InLeapYear t
      in if d < 31 then 0 else if d < 59 + l then 1 else if d < 90 + l then 2
         else if d < 120 + l then 3 else if d < 151 + l then 4 else if d < 181 + l then 5
         else if d < 212 + l then 6 else if d < 243 + l then 7 else if d < 273 + l then 8
         else if d < 304 + l then 9 else if d < 334 + l then 10 else 11)"

definition DateFromTime :: "int \<Rightarrow> int" where
  "DateFromTime t =
     (let d = DayWithinYear t; l = InLeapYear t; m = MonthFromTime t
      in if m = 0 then d + 1 else if m = 1 then d - 30 else if m = 2 then d - 58 - l
         else if m = 3 then d - 89 - l else if m = 4 then d - 119 - l
         else if m = 5 then d - 150 - l else if m = 6 then d - 180 - l
         else if m = 7 then d - 211 - l else if m = 8 then d - 242 - l
         else if m = 9 then d - 272 - l else if m = 10 then d - 303 - l else d - 333 - l)"

text \<open>The day within its year on which month \<open>m\<close> (0 to 11) starts.\<close>

definition monthStart :: "int \<Rightarrow> int \<Rightarrow> int" where
  "monthStart m l =
     (if m = 0 then 0 else if m = 1 then 31 else if m = 2 then 59 + l
      else if m = 3 then 90 + l else if m = 4 then 120 + l else if m = 5 then 151 + l
      else if m = 6 then 181 + l else if m = 7 then 212 + l else if m = 8 then 243 + l
      else if m = 9 then 273 + l else if m = 10 then 304 + l else 334 + l)"

definition MakeDay :: "int \<Rightarrow> int \<Rightarrow> int \<Rightarrow> int" where
  "MakeDay year month date =
     (let ym = year + month div 12; mn = month mod 12
      in DayFromYear ym + monthStart mn (if DaysInYear ym = 365 then 0 else 1) + date - 1)"

definition MakeDate :: "int \<Rightarrow> int \<Rightarrow> int" where
  "MakeDate day time = day * msPerDay + time"

definition getDate :: "int \<Rightarrow> int" where
  "getDate t = DateFromTime t"

definition getMonth :: "int \<Rightarrow> int" where
  "getMonth t = MonthFromTime t"

definition setDate :: "int \<Rightarrow> int \<Rightarrow> int" where
  "setDate t dt = MakeDate (MakeDay (YearFromTime t) (MonthFromTime t) dt) (TimeWithinDay t)"

definition setMonth :: "int \<Rightarrow> int \<Rightarrow> int" where
  "setMonth t m = MakeDate (MakeDay (YearFromTime t) m (DateFromTime t)) (TimeWithinDay t)"

section \<open>Recurring transactions (server/storage.ts and the generate route)\<close>

text \<open>
  \<open>getRecurringTransactionsDue\<close>: the active definitions whose next run date is not after
  \<open>now\<close>, each inner-joined with its account row and its category row. The clock the
  source reads with \<open>new Date()\<close> is the parameter \<open>now\<close>. The query has no ORDER BY:
  the order in which the database returns the rows is its own choice, and need not be the
  same from one call to the next. The list below has them in table order; the loop of the
  route takes the rows it works on as an argument, and what is stated about one pass after
  another is stated for every order in which each pass may get its rows.
\<close>

definition getRecurringTransactionsDue ::
  "db \<Rightarrow> int \<Rightarrow> (recurringTransaction \<times> account \<times> category) list" where
  "getRecurringTransactionsDue d now =
     [(r, a, c).
        r \<leftarrow> filter (\<lambda>r. r_isActive r \<and> r_nextRunDate r \<le> now) (recurringTransactions d),
        a \<leftarrow> filter (\<lambda>a. a_id a = r_accountId r) (accounts d),
        c \<leftarrow> filter (\<lambda>c. c_id c = r_categoryId r) (categories d)]"

text \<open>\<open>updateRecurringTransaction(id, userId, { nextRunDate })\<close>, the one patch the route
  sends.\<close>

definition updateRecurringTransaction :: "db \<Rightarrow> nat \<Rightarrow> nat \<Rightarrow> int \<Rightarrow> db" where
  "updateRecurringTransaction d i u nextRunDate =
     d\<lparr>recurringTransactions :=
         map (\<lambda>r. if r_id r = i \<and> r_userId r = u then r\<lparr>r_nextRunDate := nextRunDate\<rparr> else r)
           (recurringTransactions d)\<rparr>"

text \<open>The switch on the frequency: the next run date after the one stored.\<close>

definition advance_nextRunDate :: "frequency \<Rightarrow> int \<Rightarrow> int" where
  "advance_nextRunDate f nextRunDate =
     (case f of
        daily \<Rightarrow> setDate nextRunDate (getDate nextRunDate + 1)
      | weekly \<Rightarrow> setDate nextRunDate (getDate nextRunDate + 7)
      | monthly \<Rightarrow> setMonth nextRunDate (getMonth nextRunDate + 1))"

text \<open>The transaction the route creates for a due definition.\<close>

definition recurring_input :: "recurringTransaction \<Rightarrow> int \<Rightarrow> insertTransaction" where
  "recurring_input r now =
     \<lparr>i_amount = r_amount r, i_date = now, i_description = r_description r, i_type = r_type r,
       i_accountId = r_accountId r, i_categoryId = r_categoryId r, i_userId = r_userId r\<rparr>"

text \<open>
  The body of the route's \<open>try\<close>: the loop over the due rows. A throw leaves the loop, with
  the database as the statements before it left it.
\<close>

fun generate_loop ::
  "db \<Rightarrow> int \<Rightarrow> (recurringTransaction \<times> account \<times> category) list \<Rightarrow> transaction list
     \<Rightarrow> db \<times> (error + transaction list)" where
  "generate_loop d now [] generatedTransactions = (d, Inr generatedTransactions)"
| "generate_loop d now ((r, a, c) # rest) generatedTransactions =
     (case createTransaction d (recurring_input r now) of
        (d1, Inl e) \<Rightarrow> (d1, Inl e)
      | (d1, Inr transaction) \<Rightarrow>
          let nextRunDate = advance_nextRunDate (r_frequency r) (r_nextRunDate r);
              d2 = updateRecurringTransaction d1 (r_id r) (r_userId r) nextRunDate
          in generate_loop d2 now rest (generatedTransactions @ [transaction]))"

text \<open>What the route answers: \<open>{ generated, transactions }\<close>, or status 500 with a
  message.\<close>

datatype response = Generated nat "transaction list" | ServerError

definition generate :: "db \<Rightarrow> int \<Rightarrow> db \<times> response" where
  "generate d now =
     (case generate_loop d now (getRecurringTransactionsDue d now) [] of
        (d', Inl e) \<Rightarrow> (d', ServerError)
      | (d', Inr generatedTransactions) \<Rightarrow>
          (d', Generated (length generatedTransactions) generatedTransactions))"

text \<open>The definitions a pass on a database works on.\<close>

definition due_definitions :: "db \<Rightarrow> int \<Rightarrow> recurringTransaction list" where
  "due_definitions d now = map fst (getRecurringTransactionsDue d now)"


text \<open>A list that holds the rows of another, each as many times, in any order.\<close>

definition reordering :: "'a list \<Rightarrow> 'a list \<Rightarrow> bool" where
  "reordering xs ys = list_all (\<lambda>x. count_list xs x = count_list ys x) (xs @ ys)"

text \<open>
  Passes one after the other, all at the same \<open>now\<close>, each of which has to return: the
  k-th pass gets the k-th list of \<open>orders\<close> from its query, which has to be the due rows
  of the database as the pass finds it, in some order. The result is the database the
  last pass leaves and the transactions each pass has answered with; it is \<open>None\<close> as
  soon as a pass throws.
\<close>

fun generate_passes ::
  "db \<Rightarrow> int \<Rightarrow> (recurringTransaction \<times> account \<times> category) list list
     \<Rightarrow> (db \<times> transaction list list) option" where
  "generate_passes d now [] = Some (d, [])"
| "generate_passes d now (dueTransactions # later) =
     (if \<not> reordering dueTransactions (getRecurringTransactionsDue d now) then None
      else
        (case generate_loop d now dueTransactions [] of
           (d1, Inl e) \<Rightarrow> None
         | (d1, Inr generatedTransactions) \<Rightarrow>
             (case generate_passes d1 now later of
                None \<Rightarrow> None
              | Some (d', answers) \<Rightarrow> Some (d', generatedTransactions # answers))))"


text \<open>The period boundaries a definition has crossed at \<open>now\<close>: the number of the dates
  nextRunDate, nextRunDate + period, nextRunDate + 2 period, and so on, that are not after
  \<open>now\<close>.\<close>

definition boundaries_crossed :: "int \<Rightarrow> int \<Rightarrow> int \<Rightarrow> nat" where
  "boundaries_crossed period nextRunDate now =
     (if nextRunDate \<le> now then nat ((now - nextRunDate) div period) + 1 else 0)"



section \<open>Proof devices\<close>

text \<open>The net amount the transactions of a list contribute to an account, the accounts
  table with one balance overwritten, and account rows that all hold the balance a function
  assigns to their id.\<close>

definition net :: "transaction list \<Rightarrow> nat \<Rightarrow> decimal" where
  "net ts a = sum_list (map (\<lambda>t. if t_accountId t = a then delta t else 0) ts)"

definition rows_consistent :: "(nat \<Rightarrow> decimal) \<Rightarrow> account list \<Rightarrow> bool" where
  "rows_consistent f as = list_all (\<lambda>a. a_balance a = f (a_id a)) as"

definition set_balance :: "nat \<Rightarrow> decimal \<Rightarrow> account list \<Rightarrow> account list" where
  "set_balance i b as = map (\<lambda>a. if a_id a = i then a\<lparr>a_balance := b\<rparr> else a) as"

text \<open>A transaction that carries the fields of a definition and the date \<open>now\<close>, and a
  recurring table in which the definitions of a set of ids have been advanced.\<close>

definition advance_rows :: "nat set \<Rightarrow> recurringTransaction list \<Rightarrow> recurringTransaction list" where
  "advance_rows S rs =
     map (\<lambda>x. if r_id x \<in> S
              then x\<lparr>r_nextRunDate := advance_nextRunDate (r_frequency x) (r_nextRunDate x)\<rparr>
              else x) rs"



section \<open>Example data\<close>

definition example_account :: "decimal \<Rightarrow> nat \<Rightarrow> account" where
  "example_account b u = \<lparr>a_id = 1, a_balance = b, a_userId = u\<rparr>"

definition example_row :: "nat \<Rightarrow> decimal \<Rightarrow> transactionType \<Rightarrow> transaction" where
  "example_row k amount ty =
     \<lparr>t_id = k, t_amount = amount, t_date = 0, t_description = ''example'', t_type = ty,
       t_accountId = 1, t_categoryId = 1, t_userId = 1\<rparr>"

definition example_input :: "decimal \<Rightarrow> transactionType \<Rightarrow> insertTransaction" where
  "example_input amount ty =
     \<lparr>i_amount = amount, i_date = 0, i_description = ''example'', i_type = ty,
       i_accountId = 1, i_categoryId = 1, i_userId = 1\<rparr>"

definition example_db :: "account list \<Rightarrow> transaction list \<Rightarrow> nat \<Rightarrow> db" where
  "example_db as ts n =
     \<lparr>users = [1, 2], accounts = as, categories = [\<lparr>c_id = 1, c_userId = 1\<rparr>],
       transactions = ts, recurringTransactions = [], transactions_id_seq = n\<rparr>"

definition no_patch :: transactionPatch where
  "no_patch = \<lparr>p_amount = None, p_date = None, p_description = None, p_type = None,
     p_accountId = None, p_categoryId = None\<rparr>"

definition example_definition :: "nat \<Rightarrow> nat \<Rightarrow> int \<Rightarrow> recurringTransaction" where
  "example_definition k acc next =
     \<lparr>r_id = k, r_amount = Number 100, r_description = ''rent'', r_type = income, r_frequency = daily,
       r_nextRunDate = next, r_accountId = acc, r_categoryId = 1, r_userId = 1, r_isActive = True\<rparr>"

definition example_generated :: "nat \<Rightarrow> nat \<Rightarrow> int \<Rightarrow> transaction" where
  "example_generated k acc now =
     \<lparr>t_id = k, t_amount = Number 100, t_date = now, t_description = ''rent'', t_type = income,
       t_accountId = acc, t_categoryId = 1, t_userId = 1\<rparr>"

definition scheduler_db ::
  "decimal \<Rightarrow> decimal \<Rightarrow> transaction list \<Rightarrow> recurringTransaction list \<Rightarrow> db" where
  "scheduler_db b1 b2 ts rs =
     \<lparr>users = [1],
       accounts = [\<lparr>a_id = 1, a_balance = b1, a_userId = 1\<rparr>, \<lparr>a_id = 2, a_balance = b2, a_userId = 1\<rparr>],
       categories = [\<lparr>c_id = 1, c_userId = 1\<rparr>],
       transactions = ts, recurringTransactions = rs, transactions_id_seq = Suc (length ts)\<rparr>"


section \<open>Two createTransaction calls in flight\<close>

text \<open>
  createTransaction awaits three database statements, one after the other: the insert, the
  select of the account, the update of its balance. Each statement is one step of a call,
  and between two steps of one call another request may take steps of its own. A call in
  flight is the statement it is about to await together with what it holds in its local
  variables: nothing yet, \<open>newTransaction\<close>, or \<open>newTransaction\<close> and the
  \<open>currentBalance\<close> it has read; or it has returned or thrown.
\<close>

datatype create_call =
  Start insertTransaction
  | Inserted transaction
  | BalanceRead transaction decimal
  | Returned "error + transaction"

fun create_step :: "db \<Rightarrow> create_call \<Rightarrow> db \<times> create_call" where
  "create_step d (Start i) =
     (case insert_transaction d i of
        Inl e \<Rightarrow> (d, Returned (Inl e))
      | Inr (d1, newTransaction) \<Rightarrow> (d1, Inserted newTransaction))"
| "create_step d (Inserted newTransaction) =
     (case select_account d (t_accountId newTransaction) of
        None \<Rightarrow> (d, Returned (Inl TypeError))
      | Some currentAccount \<Rightarrow> (d, BalanceRead newTransaction (a_balance currentAccount)))"
| "create_step d (BalanceRead newTransaction currentBalance) =
     (let amount = t_amount newTransaction;
          balanceChange = (if t_type newTransaction = income then amount else - amount)
      in case update_balance d (t_accountId newTransaction) (currentBalance + balanceChange) of
           Inl e \<Rightarrow> (d, Returned (Inl e))
         | Inr d2 \<Rightarrow> (d2, Returned (Inr newTransaction)))"
| "create_step d (Returned r) = (d, Returned r)"

text \<open>Two calls, and a schedule that says for each step whether the first call takes it
  (\<open>True\<close>) or the second.\<close>

fun interleave :: "db \<Rightarrow> create_call \<Rightarrow> create_call \<Rightarrow> bool list \<Rightarrow> db \<times> create_call \<times> create_call" where
  "interleave d a b [] = (d, a, b)"
| "interleave d a b (first # schedule) =
     (if first then (case create_step d a of (d', a') \<Rightarrow> interleave d' a' b schedule)
      else (case create_step d b of (d', b') \<Rightarrow> interleave d' a b' schedule))"

text \<open>All schedules with \<open>m\<close> steps of the first call and \<open>n\<close> of the second.\<close>

fun schedules :: "nat \<Rightarrow> nat \<Rightarrow> bool list list" where
  "schedules 0 n = [replicate n False]"
| "schedules (Suc m) 0 = [replicate (Suc m) True]"
| "schedules (Suc m) (Suc n) =
     map ((#) True) (schedules m (Suc n)) @ map ((#) False) (schedules (Suc m) n)"

text \<open>The balance two creates leave under a schedule: both an income, of 10.00 and of
  20.00, on the same account, which starts at 0.00.\<close>

definition final_balance :: "bool list \<Rightarrow> decimal option" where
  "final_balance schedule =
     balance_of
       (fst (interleave (example_db [example_account (Number 0) 1] [] 1)
               (Start (example_input (Number 1000) income)) (Start (example_input (Number 2000) income)) schedule)) 1"

section \<open>Lemmas on the ledger\<close>

subsection \<open>Arithmetic with NaN\<close>

lemma decimal_plus [simp]:
  "Number a + Number b = Number (a + b)" "NaN + x = NaN" "x + NaN = NaN"
  by (simp_all add: plus_decimal_def split: decimal.splits)

lemma decimal_uminus [simp]:
  "- Number a = Number (- a)" "- NaN = NaN" "- (0 :: decimal) = 0"
  by (simp_all add: uminus_decimal_def zero_decimal_def)

lemma decimal_uminus_uminus [simp]: "- (- x) = (x :: decimal)"
  by (cases x) simp_all

lemma decimal_uminus_add: "- (x + y) = - x + - (y :: decimal)"
  by (cases x; cases y) simp_all

lemma decimal_diff: "x - y = x + - (y :: decimal)"
  by (simp add: minus_decimal_def)

lemma decimal_diff_zero [simp]: "x - 0 = (x :: decimal)"
  by (simp add: decimal_diff)

lemma decimal_add_diff_cancel: "y \<noteq> NaN \<Longrightarrow> x + y - y = (x :: decimal)"
  by (cases x; cases y) (simp_all add: decimal_diff)

lemma decimal_add_diff_assoc: "x + y - z = x + (y - (z :: decimal))"
  by (simp add: decimal_diff add.assoc)


subsection \<open>Account rows\<close>

lemma find_set_balance:
  "map_option a_balance (find (\<lambda>a. a_id a = j) (set_balance i b xs))
   = (if j = i then map_option (\<lambda>_. b) (find (\<lambda>a. a_id a = j) xs)
      else map_option a_balance (find (\<lambda>a. a_id a = j) xs))"
  unfolding set_balance_def by (induction xs) auto

lemma update_balance_Inr:
  "update_balance d i b = Inr d' \<longleftrightarrow> numeric_12_2 b \<and> d' = d\<lparr>accounts := set_balance i b (accounts d)\<rparr>"
  by (auto simp: update_balance_def set_balance_def)

lemma update_balance_Inl:
  "update_balance d i b = Inl e \<longleftrightarrow> \<not> numeric_12_2 b \<and> e = NumericFieldOverflow"
  by (auto simp: update_balance_def)

lemma balance_of_set_balance:
  "balance_of (d\<lparr>accounts := set_balance i b (accounts d)\<rparr>) j
     = (if j = i then map_option (\<lambda>_. b) (balance_of d i) else balance_of d j)"
  by (simp add: balance_of_def select_account_def find_set_balance option.map_comp comp_def)

lemma balance_of_cong: "accounts d' = accounts d \<Longrightarrow> balance_of d' j = balance_of d j"
  by (simp add: balance_of_def select_account_def)

lemma select_account_cong: "accounts d' = accounts d \<Longrightarrow> select_account d' j = select_account d j"
  by (simp add: select_account_def)

lemma select_account_Some:
  "select_account d i = Some acc \<Longrightarrow> acc \<in> set (accounts d) \<and> a_id acc = i \<and> balance_of d i = Some (a_balance acc)"
  by (auto simp: select_account_def balance_of_def find_Some_iff)

lemma select_account_None_iff: "select_account d i = None \<longleftrightarrow> \<not> account_exists d i"
  by (auto simp: select_account_def account_exists_def find_None_iff)

lemma rows_consistent_adjust:
  assumes "rows_consistent f as" and "find (\<lambda>a. a_id a = i) as = Some acc"
  shows "rows_consistent (\<lambda>j. f j + (if j = i then x else 0)) (set_balance i (a_balance acc + x) as)"
proof -
  from assms(2) have "acc \<in> set as" "a_id acc = i" by (auto simp: find_Some_iff)
  with assms(1) have "a_balance acc = f i" by (auto simp: rows_consistent_def list_all_iff)
  with assms(1) show ?thesis
    by (auto simp: rows_consistent_def set_balance_def list_all_iff)
qed

subsection \<open>Transaction rows\<close>

lemma net_append: "net (ts @ [t]) j = net ts j + (if t_accountId t = j then delta t else 0)"
  by (simp add: net_def)

lemma net_income_expense:
  "income_sum d a - expense_sum d a = net (transactions d) a"
proof -
  have "sum_list (map t_amount (filter (\<lambda>t. t_accountId t = a \<and> t_type t = income) ts))
        - sum_list (map t_amount (filter (\<lambda>t. t_accountId t = a \<and> t_type t = expense) ts))
        = net ts a" for ts
    by (induction ts)
       (auto simp: net_def delta_def decimal_diff decimal_uminus_add ac_simps
          intro: transactionType.exhaust)
  then show ?thesis by (simp add: income_sum_def expense_sum_def)
qed

lemma ledger_consistent_rows:
  "ledger_consistent initial d
     = rows_consistent (\<lambda>j. initial j + net (transactions d) j) (accounts d)"
proof -
  have h: "initial j + income_sum d j - expense_sum d j = initial j + net (transactions d) j" for j
    using net_income_expense[of d j] by (simp add: decimal_add_diff_assoc)
  show ?thesis by (simp only: ledger_consistent_def rows_consistent_def h)
qed

lemma find_filter_hd:
  "find P xs = Some t \<Longrightarrow> \<exists>rest. filter P xs = t # rest"
  by (induction xs) (auto split: if_splits)

lemma find_filter_unique:
  assumes "distinct (map t_id xs)"
    and "find (\<lambda>t. t_id t = i \<and> t_userId t = u) xs = Some t"
  shows "filter (\<lambda>t. t_id t = i \<and> t_userId t = u) xs = [t]"
  using assms
proof (induction xs)
  case Nil then show ?case by simp
next
  case (Cons x xs)
  show ?case
  proof (cases "t_id x = i \<and> t_userId x = u")
    case True
    with Cons.prems have "x = t" by simp
    moreover have "filter (\<lambda>t. t_id t = i \<and> t_userId t = u) xs = []"
    proof -
      have "t_id y \<noteq> i" if "y \<in> set xs" for y
        using Cons.prems(1) True that by (auto simp: image_iff)
      then show ?thesis by (auto simp: filter_empty_conv)
    qed
    ultimately show ?thesis using True by simp
  next
    case False
    with Cons show ?thesis by simp
  qed
qed

lemma net_Cons: "net (x # xs) j = (if t_accountId x = j then delta x else 0) + net xs j"
  by (simp add: net_def)

lemma net_remove:
  "filter P ts = [t] \<Longrightarrow> delta t \<noteq> NaN \<Longrightarrow>
   net (filter (\<lambda>x. \<not> P x) ts) j = net ts j - (if t_accountId t = j then delta t else 0)"
proof (induction ts)
  case Nil then show ?case by simp
next
  case (Cons x xs)
  show ?case
  proof (cases "P x")
    case True
    with Cons.prems have "x = t" "filter P xs = []" by auto
    then have "filter (\<lambda>x. \<not> P x) xs = xs" by (auto simp: filter_empty_conv filter_id_conv)
    moreover have "c + n - c = n" if "c \<noteq> NaN" for c n :: decimal
      using decimal_add_diff_cancel[OF that, of n] by (simp add: add.commute)
    ultimately show ?thesis
      using True \<open>x = t\<close> Cons.prems(2) by (simp add: net_Cons)
  next
    case False
    with Cons show ?thesis by (simp add: net_Cons decimal_add_diff_assoc)
  qed
qed

lemma net_replace:
  "filter P ts = [t] \<Longrightarrow> delta t \<noteq> NaN \<Longrightarrow>
   net (map (\<lambda>x. if P x then f x else x) ts) j
     = net ts j - (if t_accountId t = j then delta t else 0)
         + (if t_accountId (f t) = j then delta (f t) else 0)"
proof (induction ts)
  case Nil then show ?case by simp
next
  case (Cons x xs)
  show ?case
  proof (cases "P x")
    case True
    with Cons.prems have "x = t" "filter P xs = []" by auto
    then have "map (\<lambda>x. if P x then f x else x) xs = xs"
      by (auto simp: filter_empty_conv map_idI)
    moreover have "c + n - c = n" if "c \<noteq> NaN" for c n :: decimal
      using decimal_add_diff_cancel[OF that, of n] by (simp add: add.commute)
    ultimately show ?thesis
      using True \<open>x = t\<close> Cons.prems(2) by (auto simp: net_Cons add.commute)
  next
    case False
    with Cons show ?thesis
      by (simp add: net_Cons decimal_add_diff_assoc add.assoc)
  qed
qed

lemma apply_patch_keys [simp]:
  "t_id (apply_patch p t) = t_id t" "t_userId (apply_patch p t) = t_userId t"
  by (simp_all add: apply_patch_def)

subsection \<open>What a returning call did\<close>

lemma insert_transaction_Inr:
  "insert_transaction d i = Inr (d1, t) \<Longrightarrow>
     t = \<lparr>t_id = transactions_id_seq d, t_amount = i_amount i, t_date = i_date i,
          t_description = i_description i, t_type = i_type i,
          t_accountId = i_accountId i, t_categoryId = i_categoryId i,
          t_userId = i_userId i\<rparr>
     \<and> d1 = d\<lparr>transactions := transactions d @ [t],
                   transactions_id_seq := Suc (transactions_id_seq d)\<rparr>
     \<and> numeric_12_2 (i_amount i) \<and> account_exists d (i_accountId i)
     \<and> category_exists d (i_categoryId i) \<and> user_exists d (i_userId i)"
  by (auto simp: insert_transaction_def Let_def split: if_splits)

lemma createTransaction_Inr:
  assumes "createTransaction d i = (d', Inr t)"
  obtains d1 acc where "insert_transaction d i = Inr (d1, t)"
    and "select_account d1 (t_accountId t) = Some acc"
    and "update_balance d1 (t_accountId t) (a_balance acc + delta t) = Inr d'"
  using assms unfolding createTransaction_def delta_def
  by (auto simp: Let_def split: sum.splits option.splits prod.splits)

lemma deleteTransaction_Inr:
  assumes "deleteTransaction d i u = (d', Inr x)"
  obtains t acc d1 where "getTransaction d i u = Some t"
    and "select_account d (t_accountId t) = Some acc"
    and "update_balance d (t_accountId t) (a_balance acc - delta t) = Inr d1"
    and "d' = delete_transactions d1 i u"
  using assms unfolding deleteTransaction_def delta_def
  by (auto simp: Let_def decimal_diff split: sum.splits option.splits prod.splits if_splits)

lemma updateTransaction_Inr:
  assumes "updateTransaction d i u p = (d', Inr t')"
  obtains t d1 rest acc d2 acc' where "getTransaction d i u = Some t"
    and "update_transactions d i u p = Inr (d1, t' # rest)"
    and "select_account d1 (t_accountId t) = Some acc"
    and "update_balance d1 (t_accountId t) (a_balance acc - delta t) = Inr d2"
    and "select_account d2 (t_accountId t') = Some acc'"
    and "update_balance d2 (t_accountId t') (a_balance acc' + delta t') = Inr d'"
  using assms unfolding updateTransaction_def delta_def
  by (auto simp: Let_def decimal_diff split: sum.splits option.splits prod.splits if_splits list.splits)

lemma update_transactions_Inr:
  "update_transactions d i u p = Inr (d1, rows) \<Longrightarrow>
     d1 = d\<lparr>transactions :=
              map (\<lambda>t. if t_id t = i \<and> t_userId t = u then apply_patch p t else t) (transactions d)\<rparr>
     \<and> rows = map (apply_patch p) (filter (\<lambda>t. t_id t = i \<and> t_userId t = u) (transactions d))
     \<and> \<not> patch_empty p \<and> patch_valid d p"
  by (auto simp: update_transactions_def split: if_splits)

lemma rows_consistent_eq:
  "rows_consistent f as \<Longrightarrow> (\<And>j. f j = g j) \<Longrightarrow> rows_consistent g as"
  by (simp add: rows_consistent_def)

lemma getTransaction_Some:
  "getTransaction d i u = Some t \<Longrightarrow> t \<in> set (transactions d) \<and> t_id t = i \<and> t_userId t = u"
  by (auto simp: getTransaction_def find_Some_iff)

lemma delta_number: "delta t \<noteq> NaN \<longleftrightarrow> t_amount t \<noteq> NaN"
  by (cases "t_amount t") (simp_all add: delta_def)

lemma stored_delta_number:
  "amounts_are_numbers d \<Longrightarrow> t \<in> set (transactions d) \<and> t_id t = i \<and> t_userId t = u
   \<Longrightarrow> delta t \<noteq> NaN"
  by (simp add: amounts_are_numbers_def list_all_iff delta_number)

subsection \<open>createTransaction\<close>

lemma createTransaction_effect:
  assumes "createTransaction d i = (d', Inr t)"
  obtains acc where "select_account d (i_accountId i) = Some acc"
    and "t = \<lparr>t_id = transactions_id_seq d, t_amount = i_amount i, t_date = i_date i,
          t_description = i_description i, t_type = i_type i,
          t_accountId = i_accountId i, t_categoryId = i_categoryId i,
          t_userId = i_userId i\<rparr>"
    and "d' = d\<lparr>transactions := transactions d @ [t],
               transactions_id_seq := Suc (transactions_id_seq d),
               accounts := set_balance (i_accountId i) (a_balance acc + delta t) (accounts d)\<rparr>"
    and "numeric_12_2 (a_balance acc + delta t)"
proof -
  from assms obtain d1 acc where ins: "insert_transaction d i = Inr (d1, t)"
    and sel: "select_account d1 (t_accountId t) = Some acc"
    and upd: "update_balance d1 (t_accountId t) (a_balance acc + delta t) = Inr d'"
    by (rule createTransaction_Inr)
  note I = insert_transaction_Inr[OF ins]
  have tid: "t_accountId t = i_accountId i" using I by simp
  have "select_account d (i_accountId i) = Some acc"
    using sel I tid by (simp add: select_account_def)
  moreover have "d' = d\<lparr>transactions := transactions d @ [t],
               transactions_id_seq := Suc (transactions_id_seq d),
               accounts := set_balance (i_accountId i) (a_balance acc + delta t) (accounts d)\<rparr>"
    using upd I tid by (simp add: update_balance_Inr)
  moreover have "numeric_12_2 (a_balance acc + delta t)" using upd by (simp add: update_balance_Inr)
  ultimately show thesis using I that by blast
qed

lemma createTransaction_pkey:
  assumes "createTransaction d i = (d', Inr t)" and "transactions_pkey d"
  shows "transactions_pkey d'"
  using assms(1)
proof (rule createTransaction_effect)
  fix acc
  assume t: "t = \<lparr>t_id = transactions_id_seq d, t_amount = i_amount i, t_date = i_date i,
          t_description = i_description i, t_type = i_type i,
          t_accountId = i_accountId i, t_categoryId = i_categoryId i,
          t_userId = i_userId i\<rparr>"
    and d': "d' = d\<lparr>transactions := transactions d @ [t],
               transactions_id_seq := Suc (transactions_id_seq d),
               accounts := set_balance (i_accountId i) (a_balance acc + delta t) (accounts d)\<rparr>"
  have "t_id t = transactions_id_seq d" using t by simp
  with assms(2) show ?thesis
    unfolding d' transactions_pkey_def by (auto simp: list_all_iff)
qed

lemma createTransaction_ledger:
  assumes "createTransaction d i = (d', Inr t)" and "ledger_consistent initial d"
  shows "ledger_consistent initial d'"
  using assms(1)
proof (rule createTransaction_effect)
  fix acc
  assume sel: "select_account d (i_accountId i) = Some acc"
   and t: "t = \<lparr>t_id = transactions_id_seq d, t_amount = i_amount i, t_date = i_date i,
          t_description = i_description i, t_type = i_type i,
          t_accountId = i_accountId i, t_categoryId = i_categoryId i,
          t_userId = i_userId i\<rparr>"
    and d': "d' = d\<lparr>transactions := transactions d @ [t],
               transactions_id_seq := Suc (transactions_id_seq d),
               accounts := set_balance (i_accountId i) (a_balance acc + delta t) (accounts d)\<rparr>"
  have tid: "t_accountId t = i_accountId i" using t by simp
  from assms(2) have "rows_consistent (\<lambda>j. initial j + net (transactions d) j) (accounts d)"
    by (simp add: ledger_consistent_rows)
  from rows_consistent_adjust[OF this, of "i_accountId i" acc "delta t"] sel
  have "rows_consistent (\<lambda>j. initial j + net (transactions d) j + (if j = i_accountId i then delta t else 0))
          (accounts d')"
    by (simp add: d' select_account_def)
  then have "rows_consistent (\<lambda>j. initial j + net (transactions d') j) (accounts d')"
    by (rule rows_consistent_eq) (auto simp: d' net_append tid add.assoc)
  then show ?thesis by (simp add: ledger_consistent_rows)
qed

subsection \<open>deleteTransaction\<close>

lemma deleteTransaction_effect:
  assumes "deleteTransaction d i u = (d', Inr x)"
  obtains t acc where "getTransaction d i u = Some t"
    and "select_account d (t_accountId t) = Some acc"
    and "d' = d\<lparr>accounts := set_balance (t_accountId t) (a_balance acc - delta t) (accounts d),
               transactions := filter (\<lambda>t. \<not> (t_id t = i \<and> t_userId t = u)) (transactions d)\<rparr>"
proof -
  from assms obtain t acc d1 where "getTransaction d i u = Some t"
    and "select_account d (t_accountId t) = Some acc"
    and "update_balance d (t_accountId t) (a_balance acc - delta t) = Inr d1"
    and "d' = delete_transactions d1 i u"
    by (rule deleteTransaction_Inr)
  then show thesis using that
    by (auto simp: update_balance_Inr delete_transactions_def)
qed

lemma deleteTransaction_pkey:
  assumes "deleteTransaction d i u = (d', Inr x)" and "transactions_pkey d"
  shows "transactions_pkey d'"
  using assms(1)
proof (rule deleteTransaction_effect)
  fix t acc
  assume "d' = d\<lparr>accounts := set_balance (t_accountId t) (a_balance acc - delta t) (accounts d),
               transactions := filter (\<lambda>t. \<not> (t_id t = i \<and> t_userId t = u)) (transactions d)\<rparr>"
  with assms(2) show ?thesis
    by (auto simp: transactions_pkey_def list_all_iff distinct_map_filter)
qed

lemma deleteTransaction_ledger:
  assumes "deleteTransaction d i u = (d', Inr x)" and "transactions_pkey d"
    and "ledger_consistent initial d" and "amounts_are_numbers d"
  shows "ledger_consistent initial d'"
  using assms(1)
proof (rule deleteTransaction_effect)
  fix t acc
  assume get: "getTransaction d i u = Some t"
    and sel: "select_account d (t_accountId t) = Some acc"
    and d': "d' = d\<lparr>accounts := set_balance (t_accountId t) (a_balance acc - delta t) (accounts d),
               transactions := filter (\<lambda>t. \<not> (t_id t = i \<and> t_userId t = u)) (transactions d)\<rparr>"
  have uniq: "filter (\<lambda>t. t_id t = i \<and> t_userId t = u) (transactions d) = [t]"
    using assms(2) get by (intro find_filter_unique) (simp_all add: transactions_pkey_def getTransaction_def)
  have num: "delta t \<noteq> NaN"
    using assms(4) get by (auto dest: getTransaction_Some stored_delta_number)
  from assms(3) have "rows_consistent (\<lambda>j. initial j + net (transactions d) j) (accounts d)"
    by (simp add: ledger_consistent_rows)
  from rows_consistent_adjust[OF this, of "t_accountId t" acc "- delta t"] sel
  have "rows_consistent (\<lambda>j. initial j + net (transactions d) j + (if j = t_accountId t then - delta t else 0))
          (accounts d')"
    by (simp add: d' select_account_def decimal_diff)
  moreover have "net (transactions d') j = net (transactions d) j - (if t_accountId t = j then delta t else 0)" for j
    using net_remove[OF uniq num, of j] by (simp add: d')
  ultimately have "rows_consistent (\<lambda>j. initial j + net (transactions d') j) (accounts d')"
    by (elim rows_consistent_eq) (auto simp: decimal_diff add.assoc)
  then show ?thesis by (simp add: ledger_consistent_rows)
qed

subsection \<open>updateTransaction\<close>

lemma patch_ids:
  "map (t_id \<circ> (\<lambda>t. if P t then apply_patch p t else t)) xs = map t_id xs"
  by (induction xs) auto

lemma updateTransaction_effect:
  assumes "updateTransaction d i u p = (d', Inr t')"
  obtains t acc acc' where "getTransaction d i u = Some t"
    and "t' = apply_patch p t"
    and "select_account d (t_accountId t) = Some acc"
    and "find (\<lambda>a. a_id a = t_accountId t')
           (set_balance (t_accountId t) (a_balance acc - delta t) (accounts d)) = Some acc'"
    and "d' = d\<lparr>transactions :=
               map (\<lambda>t. if t_id t = i \<and> t_userId t = u then apply_patch p t else t) (transactions d),
             accounts := set_balance (t_accountId t') (a_balance acc' + delta t')
                           (set_balance (t_accountId t) (a_balance acc - delta t) (accounts d))\<rparr>"
proof -
  from assms obtain t d1 rest acc d2 acc' where get: "getTransaction d i u = Some t"
    and upt: "update_transactions d i u p = Inr (d1, t' # rest)"
    and sel: "select_account d1 (t_accountId t) = Some acc"
    and upd: "update_balance d1 (t_accountId t) (a_balance acc - delta t) = Inr d2"
    and sel': "select_account d2 (t_accountId t') = Some acc'"
    and upd': "update_balance d2 (t_accountId t') (a_balance acc' + delta t') = Inr d'"
    by (rule updateTransaction_Inr)
  note U = update_transactions_Inr[OF upt]
  from get obtain rest' where "filter (\<lambda>t. t_id t = i \<and> t_userId t = u) (transactions d) = t # rest'"
    unfolding getTransaction_def by (blast dest: find_filter_hd)
  with U have t': "t' = apply_patch p t" by simp
  have d2: "d2 = d1\<lparr>accounts := set_balance (t_accountId t) (a_balance acc - delta t) (accounts d1)\<rparr>"
    using upd by (simp add: update_balance_Inr)
  have a1: "accounts d1 = accounts d" using U by simp
  have "select_account d (t_accountId t) = Some acc" using sel a1 by (simp add: select_account_def)
  moreover have "find (\<lambda>a. a_id a = t_accountId t')
           (set_balance (t_accountId t) (a_balance acc - delta t) (accounts d)) = Some acc'"
    using sel' d2 a1 by (simp add: select_account_def)
  moreover have "d' = d\<lparr>transactions :=
               map (\<lambda>t. if t_id t = i \<and> t_userId t = u then apply_patch p t else t) (transactions d),
             accounts := set_balance (t_accountId t') (a_balance acc' + delta t')
                           (set_balance (t_accountId t) (a_balance acc - delta t) (accounts d))\<rparr>"
    using upd' d2 U by (simp add: update_balance_Inr)
  ultimately show thesis using that get t' by blast
qed

lemma updateTransaction_pkey:
  assumes "updateTransaction d i u p = (d', Inr t')" and "transactions_pkey d"
  shows "transactions_pkey d'"
  using assms(1)
proof (rule updateTransaction_effect)
  fix t acc acc'
  assume "d' = d\<lparr>transactions :=
               map (\<lambda>t. if t_id t = i \<and> t_userId t = u then apply_patch p t else t) (transactions d),
             accounts := set_balance (t_accountId t') (a_balance acc' + delta t')
                           (set_balance (t_accountId t) (a_balance acc - delta t) (accounts d))\<rparr>"
  then show ?thesis using assms(2)
    by (auto simp: transactions_pkey_def list_all_iff patch_ids)
qed

lemma balance_set_balance:
  "map_option a_balance (find (\<lambda>a. a_id a = j) (set_balance i b xs))
   = (if j = i then map_option (\<lambda>_. b) (map_option a_balance (find (\<lambda>a. a_id a = j) xs))
      else map_option a_balance (find (\<lambda>a. a_id a = j) xs))"
  by (simp add: find_set_balance option.map_comp comp_def)

lemma updateTransaction_ledger:
  assumes "updateTransaction d i u p = (d', Inr t')" and "transactions_pkey d"
    and "ledger_consistent initial d" and "amounts_are_numbers d"
  shows "ledger_consistent initial d'"
  using assms(1)
proof (rule updateTransaction_effect)
  fix t acc acc'
  assume get: "getTransaction d i u = Some t"
    and t': "t' = apply_patch p t"
    and sel: "select_account d (t_accountId t) = Some acc"
    and sel': "find (\<lambda>a. a_id a = t_accountId t')
           (set_balance (t_accountId t) (a_balance acc - delta t) (accounts d)) = Some acc'"
    and d': "d' = d\<lparr>transactions :=
               map (\<lambda>t. if t_id t = i \<and> t_userId t = u then apply_patch p t else t) (transactions d),
             accounts := set_balance (t_accountId t') (a_balance acc' + delta t')
                           (set_balance (t_accountId t) (a_balance acc - delta t) (accounts d))\<rparr>"
  have uniq: "filter (\<lambda>t. t_id t = i \<and> t_userId t = u) (transactions d) = [t]"
    using assms(2) get by (intro find_filter_unique) (simp_all add: transactions_pkey_def getTransaction_def)
  have num: "delta t \<noteq> NaN"
    using assms(4) get by (auto dest: getTransaction_Some stored_delta_number)
  from assms(3) have "rows_consistent (\<lambda>j. initial j + net (transactions d) j) (accounts d)"
    by (simp add: ledger_consistent_rows)
  from rows_consistent_adjust[OF this, of "t_accountId t" acc "- delta t"] sel
  have "rows_consistent (\<lambda>j. initial j + net (transactions d) j + (if j = t_accountId t then - delta t else 0))
          (set_balance (t_accountId t) (a_balance acc - delta t) (accounts d))"
    by (simp add: select_account_def decimal_diff)
  from rows_consistent_adjust[OF this sel', of "delta t'"]
  have "rows_consistent (\<lambda>j. initial j + net (transactions d) j + (if j = t_accountId t then - delta t else 0)
                             + (if j = t_accountId t' then delta t' else 0))
          (accounts d')"
    by (simp add: d')
  moreover have "net (transactions d') j = net (transactions d) j - (if t_accountId t = j then delta t else 0)
         + (if t_accountId t' = j then delta t' else 0)" for j
    using net_replace[OF uniq num, of "apply_patch p" j] by (simp add: d' t')
  ultimately have "rows_consistent (\<lambda>j. initial j + net (transactions d') j) (accounts d')"
    by (elim rows_consistent_eq) (auto simp: decimal_diff add.assoc)
  then show ?thesis by (simp add: ledger_consistent_rows)
qed

text \<open>The invariant holds, for the balances the rows hold, as long as no transaction is
  stored: the state in which the accounts were created.\<close>

lemma find_distinct_key:
  "distinct (map f xs) \<Longrightarrow> x \<in> set xs \<Longrightarrow> find (\<lambda>y. f y = f x) xs = Some x"
  by (induction xs) (auto simp: image_iff)

lemma ledger_consistent_without_transactions:
  assumes "transactions d = []" and "distinct (map a_id (accounts d))"
  shows "ledger_consistent (\<lambda>i. case balance_of d i of None \<Rightarrow> 0 | Some b \<Rightarrow> b) d"
  using assms
  by (auto simp: ledger_consistent_def income_sum_def expense_sum_def list_all_iff balance_of_def
        select_account_def find_distinct_key)

lemma updateTransaction_Inl:
  assumes "getTransaction d i u = Some t" and "updateTransaction d i u p = (d', Inl e)"
  shows "(d' = d \<and> update_transactions d i u p = Inl e)
       \<or> (\<exists>d1 rows. update_transactions d i u p = Inr (d1, rows)
             \<and> (d' = d1
                 \<or> (\<exists>acc. select_account d1 (t_accountId t) = Some acc
                        \<and> update_balance d1 (t_accountId t) (a_balance acc - delta t) = Inr d')))"
  using assms unfolding updateTransaction_def delta_def
  by (auto simp: Let_def decimal_diff split: sum.splits option.splits prod.splits if_splits list.splits)

lemma createTransaction_amounts:
  assumes "createTransaction d i = (d', Inr t)" and "amounts_are_numbers d"
    and "i_amount i \<noteq> NaN"
  shows "amounts_are_numbers d'"
  using assms(1)
proof (rule createTransaction_effect)
  fix acc
  assume t: "t = \<lparr>t_id = transactions_id_seq d, t_amount = i_amount i, t_date = i_date i,
          t_description = i_description i, t_type = i_type i,
          t_accountId = i_accountId i, t_categoryId = i_categoryId i,
          t_userId = i_userId i\<rparr>"
    and d': "d' = d\<lparr>transactions := transactions d @ [t],
               transactions_id_seq := Suc (transactions_id_seq d),
               accounts := set_balance (i_accountId i) (a_balance acc + delta t) (accounts d)\<rparr>"
  have "t_amount t = i_amount i" using t by simp
  with assms(2,3) show ?thesis
    unfolding d' amounts_are_numbers_def by simp
qed

lemma updateTransaction_amounts:
  assumes "updateTransaction d i u p = (d', Inr t')" and "amounts_are_numbers d"
    and "p_amount p \<noteq> Some NaN"
  shows "amounts_are_numbers d'"
  using assms(1)
proof (rule updateTransaction_effect)
  fix t acc acc'
  assume d': "d' = d\<lparr>transactions :=
               map (\<lambda>t. if t_id t = i \<and> t_userId t = u then apply_patch p t else t) (transactions d),
             accounts := set_balance (t_accountId t') (a_balance acc' + delta t')
                           (set_balance (t_accountId t) (a_balance acc - delta t) (accounts d))\<rparr>"
  have "t_amount (apply_patch p x) \<noteq> NaN" if "t_amount x \<noteq> NaN" for x
    using that assms(3) by (cases "p_amount p") (auto simp: apply_patch_def)
  with assms(2) show ?thesis
    unfolding d' amounts_are_numbers_def by (auto simp: list_all_iff)
qed

lemma deleteTransaction_amounts:
  assumes "deleteTransaction d i u = (d', Inr x)" and "amounts_are_numbers d"
  shows "amounts_are_numbers d'"
  using assms(1)
proof (rule deleteTransaction_effect)
  fix t acc
  assume "d' = d\<lparr>accounts := set_balance (t_accountId t) (a_balance acc - delta t) (accounts d),
               transactions := filter (\<lambda>t. \<not> (t_id t = i \<and> t_userId t = u)) (transactions d)\<rparr>"
  with assms(2) show ?thesis
    by (auto simp: amounts_are_numbers_def list_all_iff)
qed

lemma perform_preserves:
  assumes "perform d x = Some d'" and "transactions_pkey d" and "ledger_consistent initial d"
    and "amounts_are_numbers d" and "amount_is_number x"
  shows "transactions_pkey d' \<and> ledger_consistent initial d' \<and> amounts_are_numbers d'"
proof (cases x)
  case (Create i)
  with assms(1) obtain t where "createTransaction d i = (d', Inr t)"
    by (auto simp: perform_def split: prod.splits sum.splits)
  with assms(2-5) Create show ?thesis
    by (simp add: createTransaction_pkey createTransaction_ledger createTransaction_amounts
          amount_is_number_def)
next
  case (Update i u p)
  with assms(1) obtain t where "updateTransaction d i u p = (d', Inr t)"
    by (auto simp: perform_def split: prod.splits sum.splits)
  with assms(2-5) Update show ?thesis
    by (simp add: updateTransaction_pkey updateTransaction_ledger updateTransaction_amounts
          amount_is_number_def)
next
  case (Delete i u)
  with assms(1) obtain y where "deleteTransaction d i u = (d', Inr y)"
    by (auto simp: perform_def split: prod.splits sum.splits)
  with assms(2-4) show ?thesis
    by (simp add: deleteTransaction_pkey deleteTransaction_ledger deleteTransaction_amounts)
qed

lemma perform_all_preserves:
  "perform_all d xs = Some d' \<Longrightarrow> transactions_pkey d \<Longrightarrow> ledger_consistent initial d
   \<Longrightarrow> amounts_are_numbers d \<Longrightarrow> list_all amount_is_number xs
   \<Longrightarrow> transactions_pkey d' \<and> ledger_consistent initial d' \<and> amounts_are_numbers d'"
proof (induction xs arbitrary: d)
  case Nil then show ?case by simp
next
  case (Cons x xs)
  from Cons.prems(1) obtain d1 where p: "perform d x = Some d1" and r: "perform_all d1 xs = Some d'"
    by (auto split: option.splits)
  from Cons.prems(5) have x: "amount_is_number x" and xs: "list_all amount_is_number xs"
    by simp_all
  from perform_preserves[OF p Cons.prems(2,3,4) x] Cons.IH[OF r _ _ _ xs] show ?case by blast
qed

lemma find_append_last:
  "(\<And>x. x \<in> set xs \<Longrightarrow> \<not> P x) \<Longrightarrow> P t \<Longrightarrow> find P (xs @ [t]) = Some t"
  by (induction xs) auto

lemma createTransaction_Inl:
  assumes "createTransaction d i = (d', Inl e)"
  shows "(insert_transaction d i = Inl e \<and> d' = d)
       \<or> (\<exists>t acc. insert_transaction d i = Inr (d', t) \<and> e = NumericFieldOverflow
             \<and> select_account d (i_accountId i) = Some acc
             \<and> \<not> numeric_12_2 (a_balance acc + delta t))"
proof (cases "insert_transaction d i")
  case (Inl e')
  with assms show ?thesis by (simp add: createTransaction_def)
next
  case (Inr r)
  obtain d1 t where r: "r = (d1, t)" by (cases r)
  note I = insert_transaction_Inr[OF Inr[unfolded r]]
  from I have "account_exists d1 (t_accountId t)" by (simp add: account_exists_def)
  then obtain acc where sel: "select_account d1 (t_accountId t) = Some acc"
    using select_account_None_iff[of d1 "t_accountId t"] by (cases "select_account d1 (t_accountId t)") auto
  have sel0: "select_account d (i_accountId i) = Some acc"
    using sel I by (simp add: select_account_def)
  from assms Inr r sel have "update_balance d1 (t_accountId t) (a_balance acc + delta t) = Inl e \<and> d' = d1"
    by (auto simp: createTransaction_def delta_def Let_def split: sum.splits)
  with Inr r sel0 show ?thesis by (auto simp: update_balance_Inl)
qed

lemma deleteTransaction_eval:
  assumes "getTransaction d i u = Some t" and "select_account d (t_accountId t) = Some acc"
  shows "deleteTransaction d i u =
           (case update_balance d (t_accountId t) (a_balance acc - delta t) of
              Inl e \<Rightarrow> (d, Inl e)
            | Inr d1 \<Rightarrow> (delete_transactions d1 i u, Inr ()))"
  using assms by (simp add: deleteTransaction_def delta_def Let_def decimal_diff)

section \<open>Lemmas on the scheduler\<close>

subsection \<open>Dates\<close>

lemma MonthFromTime_range: "0 \<le> MonthFromTime t \<and> MonthFromTime t < 12"
  by (simp add: MonthFromTime_def Let_def)

lemma DateFromTime_monthStart:
  "DateFromTime t = DayWithinYear t - monthStart (MonthFromTime t) (InLeapYear t) + 1"
  unfolding DateFromTime_def monthStart_def Let_def
  using MonthFromTime_range[of t] by auto



lemma yearDown_le: "DayFromYear (yearDown d y) \<le> d"
  by (induction d y rule: yearDown.induct)
     (simp del: yearDown.simps add: yearDown.simps[of d y for d y])

lemma yearUp_bounds:
  "DayFromYear y \<le> d \<Longrightarrow>
   DayFromYear (yearUp d y) \<le> d \<and> d < DayFromYear (yearUp d y + 1)"
  by (induction d y rule: yearUp.induct)
     (simp del: yearUp.simps add: yearUp.simps[of d y for d y])

text \<open>\<open>YearFromTime\<close> is the year the specification asks for: it starts at or before
  the day of the time value, and the next year starts after it.\<close>

lemma YearFromTime_bounds:
  "DayFromYear (YearFromTime t) \<le> Day t \<and> Day t < DayFromYear (YearFromTime t + 1)"
  unfolding YearFromTime_def by (intro yearUp_bounds yearDown_le)



lemma DayFromYear_mono: "y \<le> y' \<Longrightarrow> DayFromYear y \<le> DayFromYear y'"
proof (induction y' rule: int_ge_induct)
  case base
  then show ?case by simp
next
  case (step i)
  with DayFromYear_next[of i] DaysInYear_pos[of i] show ?case by simp
qed

lemma YearFromTime_unique:
  assumes "DayFromYear y \<le> Day t" and "Day t < DayFromYear (y + 1)"
  shows "YearFromTime t = y"
proof (rule ccontr)
  assume ne: "YearFromTime t \<noteq> y"
  note B = YearFromTime_bounds[of t]
  show False
  proof (cases "YearFromTime t < y")
    case True
    then have "DayFromYear (YearFromTime t + 1) \<le> DayFromYear y"
      by (intro DayFromYear_mono) simp
    with B assms show False by simp
  next
    case False
    with ne have "DayFromYear (y + 1) \<le> DayFromYear (YearFromTime t)"
      by (intro DayFromYear_mono) simp
    with B assms show False by simp
  qed
qed

lemma Day_MakeDate: "0 \<le> time \<Longrightarrow> time < msPerDay \<Longrightarrow> Day (MakeDate day time) = day"
  by (simp add: Day_def MakeDate_def msPerDay_def div_pos_pos_trivial)

text \<open>\<open>MakeDay\<close> is what the specification asks for: the day number of a time value in
  the year, in the month and on the date asked for, here for the first of a month.\<close>

lemma MakeDay_first_of_month:
  assumes "0 \<le> month" and "month < 12"
  shows "YearFromTime (MakeDate (MakeDay year month 1) 0) = year
         \<and> MonthFromTime (MakeDate (MakeDay year month 1) 0) = month
         \<and> DateFromTime (MakeDate (MakeDay year month 1) 0) = 1"
proof -
  let ?l = "if DaysInYear year = 365 then 0 else 1 :: int"
  let ?t = "MakeDate (MakeDay year month 1) 0"
  have m: "month div 12 = 0" "month mod 12 = month" using assms by simp_all
  have day: "Day ?t = DayFromYear year + monthStart month ?l"
    by (simp add: Day_MakeDate msPerDay_def MakeDay_def Let_def m)
  have cases: "month = 0 \<or> month = 1 \<or> month = 2 \<or> month = 3 \<or> month = 4 \<or> month = 5
      \<or> month = 6 \<or> month = 7 \<or> month = 8 \<or> month = 9 \<or> month = 10 \<or> month = 11"
    using assms by presburger
  have len: "DaysInYear year = 365 \<or> DaysInYear year = 366"
    by (simp add: DaysInYear_def)
  have range: "0 \<le> monthStart month ?l" "monthStart month ?l < DaysInYear year"
    using cases len by (auto simp: monthStart_def)
  have y: "YearFromTime ?t = year"
    using range by (intro YearFromTime_unique) (simp_all add: day DayFromYear_next)
  have dwy: "DayWithinYear ?t = monthStart month ?l"
    by (simp add: DayWithinYear_def y day)
  have leap: "InLeapYear ?t = ?l"
    by (simp add: InLeapYear_def y)
  have mo: "MonthFromTime ?t = month"
    unfolding MonthFromTime_def Let_def dwy leap using cases by (auto simp: monthStart_def)
  have "DateFromTime ?t = 1"
    unfolding DateFromTime_monthStart mo dwy leap by simp
  with y mo show ?thesis by simp
qed

text \<open>From any January 31 the monthly step lands in March of the same year, on the 3rd,
  or on the 2nd in a leap year.\<close>

lemma monthly_from_january_31:
  assumes "getMonth t = 0" and "getDate t = 31"
  shows "YearFromTime (advance_nextRunDate monthly t) = YearFromTime t
         \<and> getMonth (advance_nextRunDate monthly t) = 2
         \<and> getDate (advance_nextRunDate monthly t) = 3 - InLeapYear t"
proof -
  let ?y = "YearFromTime t"
  let ?l = "if DaysInYear ?y = 365 then 0 else 1 :: int"
  let ?t' = "MakeDate (MakeDay ?y 1 31) (TimeWithinDay t)"
  have adv: "advance_nextRunDate monthly t = ?t'"
    using assms by (simp add: advance_nextRunDate_def setMonth_def getMonth_def getDate_def)
  have tw: "0 \<le> TimeWithinDay t" "TimeWithinDay t < msPerDay"
    by (simp_all add: TimeWithinDay_def msPerDay_def)
  have day: "Day ?t' = DayFromYear ?y + 61"
    unfolding Day_MakeDate[OF tw] by (simp add: MakeDay_def monthStart_def)
  have len: "DaysInYear ?y = 365 \<or> DaysInYear ?y = 366"
    by (simp add: DaysInYear_def)
  have y: "YearFromTime ?t' = ?y"
    using len by (intro YearFromTime_unique) (auto simp: day DayFromYear_next)
  have dwy: "DayWithinYear ?t' = 61"
    by (simp add: DayWithinYear_def y day)
  have leap: "InLeapYear ?t' = InLeapYear t"
    by (simp add: InLeapYear_def y)
  have l01: "InLeapYear t = 0 \<or> InLeapYear t = 1"
    by (simp add: InLeapYear_def)
  have mo: "MonthFromTime ?t' = 2"
    unfolding MonthFromTime_def Let_def dwy leap using l01 by auto
  have "DateFromTime ?t' = 3 - InLeapYear t"
    unfolding DateFromTime_def Let_def mo dwy leap by simp
  with y mo show ?thesis by (simp add: adv getMonth_def getDate_def)
qed

subsection \<open>The due list\<close>





lemma due_row_member:
  "(r, a, c) \<in> set (getRecurringTransactionsDue d now) \<longleftrightarrow>
     r \<in> set (recurringTransactions d) \<and> r_isActive r \<and> r_nextRunDate r \<le> now
     \<and> a \<in> set (accounts d) \<and> a_id a = r_accountId r
     \<and> c \<in> set (categories d) \<and> c_id c = r_categoryId r"
  by (auto simp: getRecurringTransactionsDue_def)


subsection \<open>The loop\<close>

lemma set_balance_ids [simp]: "map a_id (set_balance i b as) = map a_id as"
  by (induction as) (auto simp: set_balance_def)

lemma createTransaction_frame:
  assumes "createTransaction d i = (d', r)"
  shows "recurringTransactions d' = recurringTransactions d \<and> categories d' = categories d
         \<and> users d' = users d \<and> map a_id (accounts d') = map a_id (accounts d)"
proof (cases r)
  case (Inr t)
  from assms[unfolded Inr] show ?thesis
    by (rule createTransaction_effect) simp
next
  case (Inl e)
  from createTransaction_Inl[OF assms[unfolded Inl]] show ?thesis
    by (auto dest!: insert_transaction_Inr)
qed

lemma generate_loop_append:
  "generate_loop d now (xs @ ys) acc =
     (case generate_loop d now xs acc of
        (d1, Inl e) \<Rightarrow> (d1, Inl e)
      | (d1, Inr acc1) \<Rightarrow> generate_loop d1 now ys acc1)"
proof (induction xs arbitrary: d acc)
  case Nil then show ?case by simp
next
  case (Cons x xs)
  obtain r a c where x: "x = (r, a, c)" by (cases x)
  show ?case
    by (cases "createTransaction d (recurring_input r now)")
       (auto simp: x Cons.IH Let_def split: sum.splits)
qed



lemma advance_rows_ids [simp]: "map r_id (advance_rows S rs) = map r_id rs"
  by (induction rs) (auto simp: advance_rows_def)






lemma due_rows_without:
  assumes "filter (\<lambda>a. a_id a = r_accountId r) as = [] \<or> filter (\<lambda>c. c_id c = r_categoryId r) cs = []"
  shows "[(x, a, c). x \<leftarrow> filter W (filter (\<lambda>x. x \<noteq> r) rs),
                     a \<leftarrow> filter (\<lambda>a. a_id a = r_accountId x) as,
                     c \<leftarrow> filter (\<lambda>c. c_id c = r_categoryId x) cs]
       = [(x, a, c). x \<leftarrow> filter W rs,
                     a \<leftarrow> filter (\<lambda>a. a_id a = r_accountId x) as,
                     c \<leftarrow> filter (\<lambda>c. c_id c = r_categoryId x) cs]"
  using assms by (induction rs) (auto simp: filter_empty_conv)

lemma account_row_exists: "a \<in> set (accounts d) \<Longrightarrow> a_id a = k \<Longrightarrow> account_exists d k"
  unfolding account_exists_def by (metis imageI)

lemma category_row_exists: "c \<in> set (categories d) \<Longrightarrow> c_id c = k \<Longrightarrow> category_exists d k"
  unfolding category_exists_def by (metis imageI)

subsection \<open>Orders of the due rows\<close>




lemma reordering_refl: "reordering xs xs"
  by (simp add: reordering_def list_all_iff)


subsection \<open>One pass that returns\<close>







subsection \<open>Passes one after the other\<close>





text \<open>\<open>boundaries_crossed\<close> counts the dates nextRunDate + j period that are not after
  \<open>now\<close>.\<close>

lemma boundaries_crossed_step:
  assumes "0 < period" and "t \<le> now"
  shows "boundaries_crossed period t now = Suc (boundaries_crossed period (t + period) now)"
proof (cases "t + period \<le> now")
  case True
  have "(now - t) div period = (now - (t + period)) div period + 1"
    using assms(1) div_add_self2[of period "now - (t + period)"] by (simp add: algebra_simps)
  moreover have "0 \<le> (now - (t + period)) div period"
    using True assms(1) by (simp add: pos_imp_zdiv_nonneg_iff)
  ultimately show ?thesis using True assms(2) by (simp add: boundaries_crossed_def nat_add_distrib)
next
  case False
  then have "(now - t) div period = 0" using assms by (simp add: div_pos_pos_trivial)
  with False assms(2) show ?thesis by (simp add: boundaries_crossed_def)
qed

lemma boundaries_crossed_iff:
  assumes "0 < period"
  shows "j < boundaries_crossed period t now \<longleftrightarrow> t + int j * period \<le> now"
proof (induction j arbitrary: t)
  case 0
  show ?case by (simp add: boundaries_crossed_def)
next
  case (Suc j)
  show ?case
  proof (cases "t \<le> now")
    case True
    from boundaries_crossed_step[OF assms True] Suc[of "t + period"] show ?thesis
      by (simp add: algebra_simps)
  next
    case False
    have "0 \<le> int (Suc j) * period" using assms by simp
    with False have "\<not> t + int (Suc j) * period \<le> now" by linarith
    with False show ?thesis by (simp add: boundaries_crossed_def)
  qed
qed



subsection \<open>One pass, whether it returns or throws\<close>





text \<open>A run of one pass over the due rows in table order is the route's pass.\<close>

lemma generate_passes_single:
  "generate_passes d now [getRecurringTransactionsDue d now]
   = (case generate d now of
        (d', Generated n ts) \<Rightarrow> Some (d', [ts])
      | (d', ServerError) \<Rightarrow> None)"
  by (simp add: generate_def reordering_refl split: prod.splits sum.splits)

text \<open>A monthly definition due on 2023-01-31T09:00Z, at a pass on 2023-03-01T09:00Z: one
  transaction is generated and the nextRunDate is 2023-03-03T09:00Z, so a second pass
  generates none, although 2023-02-28T09:00Z, the end of the month after, has passed.\<close>

lemma monthly_definition_skips_february:
  "generate
      (scheduler_db (Number 0) (Number 0) []
         [(example_definition 1 1 1675155600000)\<lparr>r_frequency := monthly\<rparr>]) 1677661200000
     = (scheduler_db (Number 100) (Number 0) [example_generated 1 1 1677661200000]
          [(example_definition 1 1 1677834000000)\<lparr>r_frequency := monthly\<rparr>],
        Generated 1 [example_generated 1 1 1677661200000])
   \<and> generate
        (scheduler_db (Number 100) (Number 0) [example_generated 1 1 1677661200000]
          [(example_definition 1 1 1677834000000)\<lparr>r_frequency := monthly\<rparr>]) 1677661200000
     = (scheduler_db (Number 100) (Number 0) [example_generated 1 1 1677661200000]
          [(example_definition 1 1 1677834000000)\<lparr>r_frequency := monthly\<rparr>],
        Generated 0 [])
   \<and> YearFromTime 1677574800000 = 2023 \<and> getMonth 1677574800000 = 1 \<and> getDate 1677574800000 = 28
   \<and> (1677574800000 :: int) \<le> 1677661200000"
  by code_simp

section \<open>Lemmas on the calls in flight\<close>

text \<open>The three steps of a call, taken with no step of another call between them, are
  createTransaction.\<close>

lemma create_steps_sequential:
  "(case create_step d (Start i) of (d1, c1) \<Rightarrow>
      case create_step d1 c1 of (d2, c2) \<Rightarrow> create_step d2 c2)
   = (case createTransaction d i of (d', r) \<Rightarrow> (d', Returned r))"
  by (auto simp: createTransaction_def Let_def split: sum.splits option.splits prod.splits)

lemma write_step:
  assumes "numeric_12_2 (b + delta t)"
  shows "create_step d (BalanceRead t b)
         = (d\<lparr>accounts := set_balance (t_accountId t) (b + delta t) (accounts d)\<rparr>, Returned (Inr t))"
  using assms by (simp add: Let_def delta_def update_balance_def set_balance_def)

text \<open>\<open>schedules m n\<close> holds every schedule with \<open>m\<close> steps of the first call and
  \<open>n\<close> of the second.\<close>

lemma schedules_complete:
  "s \<in> set (schedules m n) \<longleftrightarrow> length (filter (\<lambda>b. b) s) = m \<and> length (filter Not s) = n"
proof (induction m n arbitrary: s rule: schedules.induct)
  case (1 n)
  show ?case
  proof
    assume "s \<in> set (schedules 0 n)"
    then show "length (filter (\<lambda>b. b) s) = 0 \<and> length (filter Not s) = n" by simp
  next
    assume a: "length (filter (\<lambda>b. b) s) = 0 \<and> length (filter Not s) = n"
    then have "\<forall>b \<in> set s. \<not> b" by (auto simp: filter_empty_conv)
    then have "s = replicate (length s) False" by (induction s) auto
    moreover from \<open>\<forall>b \<in> set s. \<not> b\<close> have "filter Not s = s" by (simp add: filter_id_conv)
    ultimately show "s \<in> set (schedules 0 n)" using a by simp
  qed
next
  case (2 m)
  show ?case
  proof
    assume "s \<in> set (schedules (Suc m) 0)"
    then show "length (filter (\<lambda>b. b) s) = Suc m \<and> length (filter Not s) = 0" by simp
  next
    assume a: "length (filter (\<lambda>b. b) s) = Suc m \<and> length (filter Not s) = 0"
    then have all: "\<forall>b \<in> set s. b" by (auto simp: filter_empty_conv)
    then have "s = replicate (length s) True" by (induction s) auto
    moreover from all have "filter (\<lambda>b. b) s = s" by (simp add: filter_id_conv)
    ultimately show "s \<in> set (schedules (Suc m) 0)" using a by simp
  qed
next
  case (3 m n)
  show ?case
  proof (cases s)
    case Nil
    then show ?thesis by auto
  next
    case (Cons b rest)
    then show ?thesis using "3.IH"(1)[of rest] "3.IH"(2)[of rest] by (cases b) auto
  qed
qed

section \<open>The claims\<close>

subsection \<open>C1: the ledger invariant\<close>

text \<open>
  C1, as amended. For every account, after any sequence of createTransaction,
  updateTransaction and deleteTransaction calls that all return and none of which sends
  NaN as an amount, the balance the account row holds is the balance the account was
  created with, plus the amounts of the income transactions that reference it now, minus
  the amounts of the expense transactions that reference it now. The sequence starts in
  any database that satisfies the invariant for \<open>initial\<close> (a database without
  transactions and with account ids that are a primary key does, for the balances it
  holds), whose transaction ids are a primary key and whose stored amounts are numbers.
\<close>

theorem ledger_invariant:
  assumes "transactions_pkey d" and "ledger_consistent initial d"
    and "amounts_are_numbers d" and "list_all amount_is_number ops"
    and "perform_all d ops = Some d'"
  shows "list_all (\<lambda>a. a_balance a = initial (a_id a) + income_sum d' (a_id a) - expense_sum d' (a_id a))
           (accounts d')"
  using perform_all_preserves[OF assms(5,1,2,3,4)] by (simp add: ledger_consistent_def)

theorem ledger_invariant_witness:
  "transactions_pkey (example_db [example_account (Number 60000) 1] [] 1)
   \<and> ledger_consistent (\<lambda>_. Number 60000) (example_db [example_account (Number 60000) 1] [] 1)
   \<and> amounts_are_numbers (example_db [example_account (Number 60000) 1] [] 1)
   \<and> list_all amount_is_number
         [Create (example_input (Number 10000) income),
          Update 1 1 (no_patch\<lparr>p_amount := Some (Number 15000)\<rparr>),
          Create (example_input (Number 2500) expense),
          Update 1 1 (no_patch\<lparr>p_type := Some expense\<rparr>),
          Delete 2 1]
   \<and> perform_all (example_db [example_account (Number 60000) 1] [] 1)
         [Create (example_input (Number 10000) income),
          Update 1 1 (no_patch\<lparr>p_amount := Some (Number 15000)\<rparr>),
          Create (example_input (Number 2500) expense),
          Update 1 1 (no_patch\<lparr>p_type := Some expense\<rparr>),
          Delete 2 1]
       = Some (example_db [example_account (Number 45000) 1] [example_row 1 (Number 15000) expense] 3)
   \<and> list_all (\<lambda>a. a_balance a
                      = Number 60000
                        + income_sum (example_db [example_account (Number 45000) 1] [example_row 1 (Number 15000) expense] 3) (a_id a)
                        - expense_sum (example_db [example_account (Number 45000) 1] [example_row 1 (Number 15000) expense] 3) (a_id a))
         (accounts (example_db [example_account (Number 45000) 1] [example_row 1 (Number 15000) expense] 3))"
proof -
  have h1: "transactions_pkey (example_db [example_account (Number 60000) 1] [] 1)"
    by code_simp
  have h2: "ledger_consistent (\<lambda>_. Number 60000) (example_db [example_account (Number 60000) 1] [] 1)"
    by code_simp
  have h3: "amounts_are_numbers (example_db [example_account (Number 60000) 1] [] 1)"
    by code_simp
  have h4: "list_all amount_is_number
         [Create (example_input (Number 10000) income),
          Update 1 1 (no_patch\<lparr>p_amount := Some (Number 15000)\<rparr>),
          Create (example_input (Number 2500) expense),
          Update 1 1 (no_patch\<lparr>p_type := Some expense\<rparr>),
          Delete 2 1]"
    by code_simp
  have h5: "perform_all (example_db [example_account (Number 60000) 1] [] 1)
         [Create (example_input (Number 10000) income),
          Update 1 1 (no_patch\<lparr>p_amount := Some (Number 15000)\<rparr>),
          Create (example_input (Number 2500) expense),
          Update 1 1 (no_patch\<lparr>p_type := Some expense\<rparr>),
          Delete 2 1]
       = Some (example_db [example_account (Number 45000) 1] [example_row 1 (Number 15000) expense] 3)"
    by code_simp
  from ledger_invariant[OF h1 h2 h3 h4 h5] h1 h2 h3 h4 h5 show ?thesis by blast
qed

text \<open>
  The claim fails for a sequence that sends NaN, which the amount column accepts: on an
  account created with 600.00 an income of NaN is created, which returns and writes the
  balance NaN, and then deleted, which returns and leaves NaN. Both calls have completed,
  no transaction references the account, and its balance is NaN, not 600.00.
\<close>

theorem ledger_invariant_lost_to_NaN:
  "transactions_pkey (example_db [example_account (Number 60000) 1] [] 1)
   \<and> ledger_consistent (\<lambda>_. Number 60000) (example_db [example_account (Number 60000) 1] [] 1)
   \<and> createTransaction (example_db [example_account (Number 60000) 1] [] 1) (example_input NaN income)
       = (example_db [example_account NaN 1] [example_row 1 NaN income] 2,
          Inr (example_row 1 NaN income))
   \<and> deleteTransaction (example_db [example_account NaN 1] [example_row 1 NaN income] 2) 1 1
       = (example_db [example_account NaN 1] [] 2, Inr ())
   \<and> perform_all (example_db [example_account (Number 60000) 1] [] 1)
         [Create (example_input NaN income), Delete 1 1]
       = Some (example_db [example_account NaN 1] [] 2)
   \<and> balance_of (example_db [example_account NaN 1] [] 2) 1 = Some NaN
   \<and> income_sum (example_db [example_account NaN 1] [] 2) 1 = Number 0
   \<and> expense_sum (example_db [example_account NaN 1] [] 2) 1 = Number 0
   \<and> \<not> ledger_consistent (\<lambda>_. Number 60000) (example_db [example_account NaN 1] [] 2)"
  by code_simp

subsection \<open>C2: the balance effect of updateTransaction\<close>

text \<open>
  C2, as amended. For every transaction the caller owns and every patch, a call of
  updateTransaction that returns gives back the old row with the patch applied and has
  changed every account balance by exactly the net effect of undoing the old row's delta
  on the old account and applying the new row's delta on the new account: raising the
  amount of an income from 100 to 150 takes a balance of 600 to 650, and turning an income
  of 100 into an expense of 100 takes a balance of 650 to 450. A call that throws has
  either changed nothing, or it has rewritten the row and, of the two balance writes, made
  none or only the first, the one that undoes the old delta.
\<close>

theorem updateTransaction_outcomes:
  assumes "getTransaction d i u = Some t" and "updateTransaction d i u p = (d', r)"
  shows "case r of
           Inr t' \<Rightarrow>
             t' = apply_patch p t
             \<and> (\<forall>j. balance_of d' j =
                    map_option (\<lambda>b. b - (if j = t_accountId t then delta t else 0)
                                      + (if j = t_accountId t' then delta t' else 0))
                      (balance_of d j))
         | Inl e \<Rightarrow>
             d' = d
             \<or> (transactions d'
                  = map (\<lambda>x. if t_id x = i \<and> t_userId x = u then apply_patch p x else x)
                      (transactions d)
                 \<and> ((\<forall>j. balance_of d' j = balance_of d j)
                     \<or> (\<forall>j. balance_of d' j =
                            map_option (\<lambda>b. b - (if j = t_accountId t then delta t else 0))
                              (balance_of d j))))"
proof (cases r)
  case (Inr t')
  have "t' = apply_patch p t \<and> balance_of d' j =
           map_option (\<lambda>b. b - (if j = t_accountId t then delta t else 0)
                             + (if j = t_accountId t' then delta t' else 0))
             (balance_of d j)" for j
    using assms(2)[unfolded Inr]
  proof (rule updateTransaction_effect)
    fix t0 acc acc'
    assume get: "getTransaction d i u = Some t0"
      and t': "t' = apply_patch p t0"
      and sel: "select_account d (t_accountId t0) = Some acc"
      and sel': "find (\<lambda>a. a_id a = t_accountId t')
             (set_balance (t_accountId t0) (a_balance acc - delta t0) (accounts d)) = Some acc'"
      and d': "d' = d\<lparr>transactions :=
                 map (\<lambda>t. if t_id t = i \<and> t_userId t = u then apply_patch p t else t) (transactions d),
               accounts := set_balance (t_accountId t') (a_balance acc' + delta t')
                             (set_balance (t_accountId t0) (a_balance acc - delta t0) (accounts d))\<rparr>"
    from get assms(1) have t0: "t0 = t" by simp
    have b: "balance_of d (t_accountId t) = Some (a_balance acc)"
      using sel t0 by (simp add: select_account_Some)
    from sel' have "map_option a_balance (find (\<lambda>a. a_id a = t_accountId t')
             (set_balance (t_accountId t) (a_balance acc - delta t) (accounts d))) = Some (a_balance acc')"
      by (simp add: t0)
    then have b': "(if t_accountId t' = t_accountId t then Some (a_balance acc - delta t)
              else balance_of d (t_accountId t')) = Some (a_balance acc')"
      using b by (simp add: balance_set_balance balance_of_def select_account_def split: if_splits)
    have "balance_of d' j =
             map_option (\<lambda>b. b - (if j = t_accountId t then delta t else 0)
                               + (if j = t_accountId t' then delta t' else 0))
               (balance_of d j)"
      using b b' unfolding d' t0
      by (auto simp: balance_of_def select_account_def balance_set_balance option.map_ident split: if_splits)
    with t' t0 show ?thesis by simp
  qed
  then show ?thesis by (simp add: Inr)
next
  case (Inl e)
  from updateTransaction_Inl[OF assms(1) assms(2)[unfolded Inl]] show ?thesis
  proof (elim disjE exE conjE)
    assume "d' = d"
    then show ?thesis by (simp add: Inl)
  next
    fix d1 rows
    assume u: "update_transactions d i u p = Inr (d1, rows)" and "d' = d1"
    with update_transactions_Inr[OF u] show ?thesis
      by (auto simp: Inl balance_of_def select_account_def)
  next
    fix d1 rows acc
    assume u: "update_transactions d i u p = Inr (d1, rows)"
      and sel: "select_account d1 (t_accountId t) = Some acc"
      and upd: "update_balance d1 (t_accountId t) (a_balance acc - delta t) = Inr d'"
    note U = update_transactions_Inr[OF u]
    have a1: "accounts d1 = accounts d" using U by simp
    have b: "balance_of d (t_accountId t) = Some (a_balance acc)"
      using sel a1 by (simp add: balance_of_def select_account_def)
    have d': "d' = d1\<lparr>accounts := set_balance (t_accountId t) (a_balance acc - delta t) (accounts d1)\<rparr>"
      using upd by (simp add: update_balance_Inr)
    have "balance_of d' j = map_option (\<lambda>b. b - (if j = t_accountId t then delta t else 0))
                              (balance_of d j)" for j
      using b unfolding d' a1
      by (auto simp: balance_of_def select_account_def balance_set_balance option.map_ident)
    moreover have "transactions d'
                  = map (\<lambda>x. if t_id x = i \<and> t_userId x = u then apply_patch p x else x)
                      (transactions d)"
      using U d' by simp
    ultimately show ?thesis by (simp add: Inl)
  qed
qed

theorem updateTransaction_outcomes_witness:
  "getTransaction (example_db [example_account (Number 60000) 1] [example_row 1 (Number 10000) income] 2) 1 1
     = Some (example_row 1 (Number 10000) income)
   \<and> updateTransaction (example_db [example_account (Number 60000) 1] [example_row 1 (Number 10000) income] 2) 1 1
         (no_patch\<lparr>p_amount := Some (Number 15000)\<rparr>)
     = (example_db [example_account (Number 65000) 1] [example_row 1 (Number 15000) income] 2,
        Inr (example_row 1 (Number 15000) income))
   \<and> balance_of (example_db [example_account (Number 60000) 1] [example_row 1 (Number 10000) income] 2) 1 = Some (Number 60000)
   \<and> balance_of (example_db [example_account (Number 65000) 1] [example_row 1 (Number 15000) income] 2) 1 = Some (Number 65000)
   \<and> updateTransaction (example_db [example_account (Number 65000) 1] [example_row 1 (Number 10000) income] 2) 1 1
         (no_patch\<lparr>p_type := Some expense\<rparr>)
     = (example_db [example_account (Number 45000) 1] [example_row 1 (Number 10000) expense] 2,
        Inr (example_row 1 (Number 10000) expense))
   \<and> balance_of (example_db [example_account (Number 65000) 1] [example_row 1 (Number 10000) income] 2) 1 = Some (Number 65000)
   \<and> balance_of (example_db [example_account (Number 45000) 1] [example_row 1 (Number 10000) expense] 2) 1 = Some (Number 45000)"
proof -
  have g1: "getTransaction (example_db [example_account (Number 60000) 1] [example_row 1 (Number 10000) income] 2) 1 1
     = Some (example_row 1 (Number 10000) income)"
    by code_simp
  have u1: "updateTransaction (example_db [example_account (Number 60000) 1] [example_row 1 (Number 10000) income] 2) 1 1
         (no_patch\<lparr>p_amount := Some (Number 15000)\<rparr>)
     = (example_db [example_account (Number 65000) 1] [example_row 1 (Number 15000) income] 2,
        Inr (example_row 1 (Number 15000) income))"
    by code_simp
  have b1: "balance_of (example_db [example_account (Number 60000) 1] [example_row 1 (Number 10000) income] 2) 1 = Some (Number 60000)"
    by code_simp
  have g2: "getTransaction (example_db [example_account (Number 65000) 1] [example_row 1 (Number 10000) income] 2) 1 1
     = Some (example_row 1 (Number 10000) income)"
    by code_simp
  have u2: "updateTransaction (example_db [example_account (Number 65000) 1] [example_row 1 (Number 10000) income] 2) 1 1
         (no_patch\<lparr>p_type := Some expense\<rparr>)
     = (example_db [example_account (Number 45000) 1] [example_row 1 (Number 10000) expense] 2,
        Inr (example_row 1 (Number 10000) expense))"
    by code_simp
  have b2: "balance_of (example_db [example_account (Number 65000) 1] [example_row 1 (Number 10000) income] 2) 1 = Some (Number 65000)"
    by code_simp
  note e1 = updateTransaction_outcomes[OF g1 u1, unfolded sum.case, THEN conjunct2,
              THEN spec[where x = "1::nat"]]
  note e2 = updateTransaction_outcomes[OF g2 u2, unfolded sum.case, THEN conjunct2,
              THEN spec[where x = "1::nat"]]
  have "balance_of (example_db [example_account (Number 65000) 1] [example_row 1 (Number 15000) income] 2) 1 = Some (Number 65000)"
    unfolding e1 b1 by (simp add: example_row_def delta_def decimal_diff)
  moreover have "balance_of (example_db [example_account (Number 45000) 1] [example_row 1 (Number 10000) expense] 2) 1 = Some (Number 45000)"
    unfolding e2 b2 by (simp add: example_row_def delta_def decimal_diff)
  ultimately show ?thesis using g1 u1 b1 u2 b2 by (intro conjI) assumption+
qed

text \<open>
  The claim fails for a patch with which the call throws at a balance write: an account
  at 9999999999.99 with an income of 100.00, whose amount is patched to 200.00. The row is
  rewritten, the old delta is taken off the balance, which is 9999999899.99 now, the new
  balance 10000000099.99 does not fit \<open>decimal(12, 2)\<close>, and the call throws: the
  balance has gone down by 100.00 where the net effect is a rise of 100.00.
\<close>

theorem updateTransaction_partial_effect:
  "updateTransaction (example_db [example_account (Number 999999999999) 1] [example_row 1 (Number 10000) income] 2) 1 1
         (no_patch\<lparr>p_amount := Some (Number 20000)\<rparr>)
     = (example_db [example_account (Number 999999989999) 1] [example_row 1 (Number 20000) income] 2,
        Inl NumericFieldOverflow)"
  by code_simp

subsection \<open>C3: create, then delete\<close>

text \<open>
  C3. For every database whose transaction ids are a primary key and whose balances fit
  their column, and every input whose amount is a number and with which createTransaction
  returns, deleteTransaction on the returned transaction returns as well, and leaves every
  account balance and the transactions table as they were before the create.
\<close>

theorem create_then_delete_restores:
  assumes "transactions_pkey d" and "balances_in_range d" and "i_amount i \<noteq> NaN"
    and "createTransaction d i = (d1, Inr t)"
  shows "\<exists>d2. deleteTransaction d1 (t_id t) (t_userId t) = (d2, Inr ())
              \<and> transactions d2 = transactions d
              \<and> (\<forall>j. balance_of d2 j = balance_of d j)"
  using assms(4)
proof (rule createTransaction_effect)
  fix acc
  assume sel: "select_account d (i_accountId i) = Some acc"
    and t: "t = \<lparr>t_id = transactions_id_seq d, t_amount = i_amount i, t_date = i_date i,
          t_description = i_description i, t_type = i_type i,
          t_accountId = i_accountId i, t_categoryId = i_categoryId i,
          t_userId = i_userId i\<rparr>"
    and d1: "d1 = d\<lparr>transactions := transactions d @ [t],
               transactions_id_seq := Suc (transactions_id_seq d),
               accounts := set_balance (i_accountId i) (a_balance acc + delta t) (accounts d)\<rparr>"
  let ?P = "\<lambda>x. t_id x = t_id t \<and> t_userId x = t_userId t"
  have fresh: "\<not> ?P x" if "x \<in> set (transactions d)" for x
    using assms(1) that t by (auto simp: transactions_pkey_def list_all_iff)
  have get: "getTransaction d1 (t_id t) (t_userId t) = Some t"
    unfolding getTransaction_def d1 using fresh by (simp add: find_append_last)
  have tid: "t_accountId t = i_accountId i" using t by simp
  have "map_option a_balance (find (\<lambda>a. a_id a = i_accountId i) (accounts d1))
          = Some (a_balance acc + delta t)"
    using sel by (simp add: d1 balance_set_balance select_account_def)
  then obtain acc1 where sel1: "select_account d1 (t_accountId t) = Some acc1"
    and b1: "a_balance acc1 = a_balance acc + delta t"
    by (auto simp: select_account_def tid)
  have "acc \<in> set (accounts d)" using sel by (simp add: select_account_Some)
  with assms(2) have rng: "numeric_12_2 (a_balance acc)"
    by (auto simp: balances_in_range_def list_all_iff)
  define d2 where "d2 = delete_transactions (d1\<lparr>accounts := set_balance (t_accountId t) (a_balance acc) (accounts d1)\<rparr>) (t_id t) (t_userId t)"
  have "delta t \<noteq> NaN" using assms(3) t by (simp add: delta_number)
  then have undo: "a_balance acc1 - delta t = a_balance acc"
    unfolding b1 by (rule decimal_add_diff_cancel)
  have del: "deleteTransaction d1 (t_id t) (t_userId t) = (d2, Inr ())"
    using rng unfolding deleteTransaction_eval[OF get sel1] undo
    by (simp add: update_balance_def set_balance_def d2_def)
  have "filter (\<lambda>x. \<not> ?P x) (transactions d @ [t]) = transactions d"
    using fresh by (auto simp: filter_id_conv)
  then have ts: "transactions d2 = transactions d"
    by (simp add: d2_def delete_transactions_def d1)
  have bal: "balance_of d2 j = balance_of d j" for j
    using sel
    by (auto simp: d2_def delete_transactions_def d1 tid balance_of_def select_account_def
          balance_set_balance)
  from del ts bal show ?thesis by blast
qed

theorem create_then_delete_restores_witness:
  "transactions_pkey (example_db [example_account (Number 60000) 1] [] 1)
   \<and> balances_in_range (example_db [example_account (Number 60000) 1] [] 1)
   \<and> i_amount (example_input (Number 10000) income) \<noteq> NaN
   \<and> createTransaction (example_db [example_account (Number 60000) 1] [] 1) (example_input (Number 10000) income)
       = (example_db [example_account (Number 70000) 1] [example_row 1 (Number 10000) income] 2,
          Inr (example_row 1 (Number 10000) income))
   \<and> (\<exists>d2. deleteTransaction (example_db [example_account (Number 70000) 1] [example_row 1 (Number 10000) income] 2)
               (t_id (example_row 1 (Number 10000) income)) (t_userId (example_row 1 (Number 10000) income))
             = (d2, Inr ())
           \<and> transactions d2 = transactions (example_db [example_account (Number 60000) 1] [] 1)
           \<and> (\<forall>j. balance_of d2 j = balance_of (example_db [example_account (Number 60000) 1] [] 1) j))"
proof -
  have h1: "transactions_pkey (example_db [example_account (Number 60000) 1] [] 1)"
    by code_simp
  have h2: "balances_in_range (example_db [example_account (Number 60000) 1] [] 1)"
    by code_simp
  have h3: "createTransaction (example_db [example_account (Number 60000) 1] [] 1) (example_input (Number 10000) income)
       = (example_db [example_account (Number 70000) 1] [example_row 1 (Number 10000) income] 2,
          Inr (example_row 1 (Number 10000) income))"
    by code_simp
  have h4: "i_amount (example_input (Number 10000) income) \<noteq> NaN"
    by code_simp
  from create_then_delete_restores[OF h1 h2 h4 h3] h1 h2 h3 h4 show ?thesis by blast
qed

subsection \<open>C4: what createTransaction leaves behind\<close>




subsection \<open>C5: what createTransaction refuses\<close>

text \<open>
  C5, as amended. createTransaction refuses a call, creating no transaction row and
  changing no balance, when the amount is a number that does not fit \<open>decimal(12, 2)\<close>
  (the column's numeric error) and otherwise when the account, category or user row its
  input references does not exist (the foreign-key error). Every other call inserts its
  row, whoever owns the account and the category and whatever the amount is, negative,
  zero or NaN: neither is checked.
\<close>

theorem createTransaction_refuses_exactly:
  "if \<not> numeric_12_2 (i_amount i)
   then createTransaction d i = (d, Inl NumericFieldOverflow)
   else if \<not> (account_exists d (i_accountId i) \<and> category_exists d (i_categoryId i)
               \<and> user_exists d (i_userId i))
   then createTransaction d i = (d, Inl ForeignKeyViolation)
   else \<exists>t. transactions (fst (createTransaction d i)) = transactions d @ [t]
            \<and> t_amount t = i_amount i \<and> t_accountId t = i_accountId i
            \<and> t_categoryId t = i_categoryId i \<and> t_userId t = i_userId i"
proof -
  obtain d' r where c: "createTransaction d i = (d', r)" by (cases "createTransaction d i")
  show ?thesis
  proof (cases "numeric_12_2 (i_amount i) \<and> account_exists d (i_accountId i)
                \<and> category_exists d (i_categoryId i) \<and> user_exists d (i_userId i)")
    case False
    then show ?thesis by (auto simp: createTransaction_def insert_transaction_def)
  next
    case True
    then obtain d1 t where ins: "insert_transaction d i = Inr (d1, t)"
      by (auto simp: insert_transaction_def Let_def)
    note I = insert_transaction_Inr[OF ins]
    have "transactions d' = transactions d @ [t]"
    proof (cases r)
      case (Inr t')
      from c[unfolded Inr] show ?thesis
        by (rule createTransaction_effect) (use I in simp)
    next
      case (Inl e)
      from createTransaction_Inl[OF c[unfolded Inl]] ins I show ?thesis by auto
    qed
    with True I c show ?thesis by auto
  qed
qed

theorem createTransaction_refuses_exactly_witness:
  "createTransaction (example_db [example_account (Number 60000) 1] [] 1)
         ((example_input (Number 10000) income)\<lparr>i_accountId := 7\<rparr>)
       = (example_db [example_account (Number 60000) 1] [] 1, Inl ForeignKeyViolation)"
proof -
  have n: "numeric_12_2 (i_amount ((example_input (Number 10000) income)\<lparr>i_accountId := 7\<rparr>))"
    by code_simp
  have h: "\<not> (account_exists (example_db [example_account (Number 60000) 1] [] 1)
              (i_accountId ((example_input (Number 10000) income)\<lparr>i_accountId := 7\<rparr>))
            \<and> category_exists (example_db [example_account (Number 60000) 1] [] 1)
              (i_categoryId ((example_input (Number 10000) income)\<lparr>i_accountId := 7\<rparr>))
            \<and> user_exists (example_db [example_account (Number 60000) 1] [] 1)
              (i_userId ((example_input (Number 10000) income)\<lparr>i_accountId := 7\<rparr>)))"
    by code_simp
  from createTransaction_refuses_exactly
         [of "(example_input (Number 10000) income)\<lparr>i_accountId := 7\<rparr>"
             "example_db [example_account (Number 60000) 1] [] 1"]
  show ?thesis by (simp only: n h if_False if_True not_True_eq_False simp_thms)
qed

text \<open>
  The caller, user 1, posts an income of -5.00 to account 1, which user 2 owns: the call
  returns, the row is stored and the balance of user 2's account goes from 600.00 to
  595.00.
\<close>

theorem createTransaction_unchecked:
  "createTransaction (example_db [example_account (Number 60000) 2] [] 1) (example_input (Number (- 500)) income)
     = (example_db [example_account (Number 59500) 2] [example_row 1 (Number (- 500)) income] 2,
        Inr (example_row 1 (Number (- 500)) income))"
  by code_simp

subsection \<open>C6: a failure during a generation pass\<close>

text \<open>
  C6, as amended. A failure while the pass generates the transaction of one due definition
  ends the pass: the definitions after it in the due list are not processed, the recurring
  table is as the definitions before it left it (the failing definition's nextRunDate is
  not advanced, the earlier ones stay advanced), no balance is changed by the failing
  call, and the route answers with the status-500 message, which carries neither a count
  nor a list of failures.
\<close>

theorem generate_stops_at_failure:
  assumes "getRecurringTransactionsDue d now = pre @ (r, a, c) # post"
    and "generate_loop d now pre [] = (d1, Inr ts)"
    and "createTransaction d1 (recurring_input r now) = (d2, Inl e)"
  shows "generate d now = (d2, ServerError)
         \<and> recurringTransactions d2 = recurringTransactions d1 \<and> accounts d2 = accounts d1"
proof -
  have "generate_loop d now (pre @ (r, a, c) # post) [] = (d2, Inl e)"
    using assms(2,3) by (simp add: generate_loop_append)
  then have "generate d now = (d2, ServerError)"
    by (simp add: generate_def assms(1))
  moreover have "recurringTransactions d2 = recurringTransactions d1"
    using createTransaction_frame[OF assms(3)] by simp
  moreover have "accounts d2 = accounts d1"
    using createTransaction_Inl[OF assms(3)] by (auto dest!: insert_transaction_Inr)
  ultimately show ?thesis by simp
qed

theorem generate_stops_at_failure_witness:
  "getRecurringTransactionsDue
       (scheduler_db (Number 999999999999) (Number 0) [] [example_definition 1 2 0, example_definition 2 1 0]) 43200000
     = [(example_definition 1 2 0, \<lparr>a_id = 2, a_balance = Number 0, a_userId = 1\<rparr>, \<lparr>c_id = 1, c_userId = 1\<rparr>)]
       @ (example_definition 2 1 0, \<lparr>a_id = 1, a_balance = Number 999999999999, a_userId = 1\<rparr>,
          \<lparr>c_id = 1, c_userId = 1\<rparr>) # []
   \<and> generate
         (scheduler_db (Number 999999999999) (Number 0) [] [example_definition 1 2 0, example_definition 2 1 0]) 43200000
       = (scheduler_db (Number 999999999999) (Number 100)
            [example_generated 1 2 43200000, example_generated 2 1 43200000]
            [example_definition 1 2 86400000, example_definition 2 1 0],
          ServerError)"
proof -
  have h1: "getRecurringTransactionsDue
       (scheduler_db (Number 999999999999) (Number 0) [] [example_definition 1 2 0, example_definition 2 1 0]) 43200000
     = [(example_definition 1 2 0, \<lparr>a_id = 2, a_balance = Number 0, a_userId = 1\<rparr>, \<lparr>c_id = 1, c_userId = 1\<rparr>)]
       @ (example_definition 2 1 0, \<lparr>a_id = 1, a_balance = Number 999999999999, a_userId = 1\<rparr>,
          \<lparr>c_id = 1, c_userId = 1\<rparr>) # []"
    by code_simp
  have h2: "generate_loop
       (scheduler_db (Number 999999999999) (Number 0) [] [example_definition 1 2 0, example_definition 2 1 0]) 43200000
       [(example_definition 1 2 0, \<lparr>a_id = 2, a_balance = Number 0, a_userId = 1\<rparr>, \<lparr>c_id = 1, c_userId = 1\<rparr>)] []
     = (scheduler_db (Number 999999999999) (Number 100) [example_generated 1 2 43200000]
          [example_definition 1 2 86400000, example_definition 2 1 0],
        Inr [example_generated 1 2 43200000])"
    by code_simp
  have h3: "createTransaction
       (scheduler_db (Number 999999999999) (Number 100) [example_generated 1 2 43200000]
          [example_definition 1 2 86400000, example_definition 2 1 0])
       (recurring_input (example_definition 2 1 0) 43200000)
     = (scheduler_db (Number 999999999999) (Number 100)
            [example_generated 1 2 43200000, example_generated 2 1 43200000]
            [example_definition 1 2 86400000, example_definition 2 1 0],
        Inl NumericFieldOverflow)"
    by code_simp
  from generate_stops_at_failure[OF h1 h2 h3] h1 show ?thesis by blast
qed

text \<open>
  Two definitions are due; the first posts an income of 1.00 to an account at
  9999999999.99, the second to an account at 0.00. The first call throws at its balance
  write, and the pass ends there: the answer is the 500 message, the second definition has
  no transaction, and its nextRunDate is the old one.
\<close>

theorem generate_failure_blocks_the_rest:
  "generate
       (scheduler_db (Number 999999999999) (Number 0) [] [example_definition 1 1 0, example_definition 2 2 0]) 43200000
     = (scheduler_db (Number 999999999999) (Number 0) [example_generated 1 1 43200000]
          [example_definition 1 1 0, example_definition 2 2 0],
        ServerError)"
  by code_simp

subsection \<open>C7: the transactions of repeated passes\<close>




subsection \<open>C8: the next run date\<close>

text \<open>
  C8 asks that a monthly definition whose nextRunDate is January 31 advances to the last
  day of February. The route's \<open>setMonth(getMonth() + 1)\<close> keeps the date 31 and lets it
  run over into March: from 2023-01-31T09:00Z (time value 1675155600000) it yields
  2023-03-03T09:00Z (1677834000000), and from 2024-01-31T09:00Z (1706691600000), in a leap
  year, 2024-03-02T09:00Z (1709370000000). Months count from 0, so 2 is March.
\<close>

theorem monthly_runs_into_march:
  "YearFromTime 1675155600000 = 2023 \<and> getMonth 1675155600000 = 0 \<and> getDate 1675155600000 = 31
   \<and> advance_nextRunDate monthly 1675155600000 = 1677834000000
   \<and> YearFromTime 1677834000000 = 2023 \<and> getMonth 1677834000000 = 2 \<and> getDate 1677834000000 = 3
   \<and> YearFromTime 1706691600000 = 2024 \<and> getMonth 1706691600000 = 0 \<and> getDate 1706691600000 = 31
   \<and> advance_nextRunDate monthly 1706691600000 = 1709370000000
   \<and> YearFromTime 1709370000000 = 2024 \<and> getMonth 1709370000000 = 2 \<and> getDate 1709370000000 = 2"
  by code_simp

subsection \<open>C9: the balance adjustment under concurrency\<close>

text \<open>
  C9, as amended. The balance adjustment of createTransaction is a read of the stored
  balance followed by a separate, unconditional write of the sum the caller has computed
  from what it read: the write stores that sum whatever the balance holds by then. Two
  createTransaction calls on the same account, both an income, of 10.00 and of 20.00, from
  a balance of 0.00, leave 30.00 when one runs after the other, and 10.00, 20.00 or 30.00
  when their statements interleave.
\<close>

theorem balance_write_unconditional:
  assumes "account_exists d (t_accountId t)" and "numeric_12_2 (b + delta t)"
  shows "balance_of (fst (create_step d (BalanceRead t b))) (t_accountId t) = Some (b + delta t)
         \<and> list_all (\<lambda>schedule. final_balance schedule = Some (Number 1000)
                                 \<or> final_balance schedule = Some (Number 2000)
                                 \<or> final_balance schedule = Some (Number 3000)) (schedules 3 3)
         \<and> final_balance [True, True, True, False, False, False] = Some (Number 3000)
         \<and> final_balance [False, False, False, True, True, True] = Some (Number 3000)"
proof -
  from assms(1) obtain acc where "select_account d (t_accountId t) = Some acc"
    using select_account_None_iff[of d "t_accountId t"] by (cases "select_account d (t_accountId t)") auto
  then have "balance_of d (t_accountId t) = Some (a_balance acc)"
    by (simp add: select_account_Some)
  then have "balance_of (fst (create_step d (BalanceRead t b))) (t_accountId t) = Some (b + delta t)"
    by (simp del: create_step.simps add: write_step[OF assms(2)] balance_of_set_balance)
  moreover have "list_all (\<lambda>schedule. final_balance schedule = Some (Number 1000)
                                 \<or> final_balance schedule = Some (Number 2000)
                                 \<or> final_balance schedule = Some (Number 3000)) (schedules 3 3)"
    by code_simp
  moreover have "final_balance [True, True, True, False, False, False] = Some (Number 3000)"
    "final_balance [False, False, False, True, True, True] = Some (Number 3000)"
    by code_simp+
  ultimately show ?thesis by simp
qed

theorem balance_write_unconditional_witness:
  "account_exists (example_db [example_account (Number 500) 1] [] 1) (t_accountId (example_row 1 (Number 1000) income))
   \<and> numeric_12_2 (Number 0 + delta (example_row 1 (Number 1000) income))
   \<and> balance_of (example_db [example_account (Number 500) 1] [] 1) 1 = Some (Number 500)
   \<and> balance_of
        (fst (create_step (example_db [example_account (Number 500) 1] [] 1)
                (BalanceRead (example_row 1 (Number 1000) income) (Number 0))))
        (t_accountId (example_row 1 (Number 1000) income))
       = Some (Number 0 + delta (example_row 1 (Number 1000) income))
   \<and> delta (example_row 1 (Number 1000) income) = Number 1000"
proof -
  have h1: "account_exists (example_db [example_account (Number 500) 1] [] 1)
              (t_accountId (example_row 1 (Number 1000) income))"
    by code_simp
  have h2: "numeric_12_2 (Number 0 + delta (example_row 1 (Number 1000) income))"
    by code_simp
  have h3: "balance_of (example_db [example_account (Number 500) 1] [] 1) 1 = Some (Number 500)"
    by code_simp
  have h4: "delta (example_row 1 (Number 1000) income) = Number 1000"
    by code_simp
  from balance_write_unconditional[OF h1 h2] h1 h2 h3 h4 show ?thesis by blast
qed

text \<open>
  Both calls insert, both read the balance 0.00, the first writes 10.00 and the second
  writes 20.00 over it: both calls return their transaction, both rows are stored, and the
  balance is 20.00, not 30.00.
\<close>

theorem lost_update:
  "interleave (example_db [example_account (Number 0) 1] [] 1)
     (Start (example_input (Number 1000) income)) (Start (example_input (Number 2000) income))
     [True, False, True, False, True, False]
   = (example_db [example_account (Number 2000) 1] [example_row 1 (Number 1000) income, example_row 2 (Number 2000) income] 3,
      Returned (Inr (example_row 1 (Number 1000) income)), Returned (Inr (example_row 2 (Number 2000) income)))"
  by code_simp

subsection \<open>C10: a definition whose account or category is gone\<close>

text \<open>
  C10. A recurring definition whose account row or category row does not exist is not
  among the definitions of the due list, whatever its isActive flag and nextRunDate are,
  and the due list, over which alone the pass runs, is the one of the database without the
  definition: the pass never works on it and never fails on it.
\<close>

theorem dangling_definition_omitted:
  assumes "\<not> account_exists d (r_accountId r) \<or> \<not> category_exists d (r_categoryId r)"
  shows "r \<notin> set (due_definitions d now)
         \<and> getRecurringTransactionsDue
              (d\<lparr>recurringTransactions := filter (\<lambda>x. x \<noteq> r) (recurringTransactions d)\<rparr>) now
             = getRecurringTransactionsDue d now"
proof -
  have "r \<notin> set (due_definitions d now)"
  proof
    assume "r \<in> set (due_definitions d now)"
    then obtain a c where "(r, a, c) \<in> set (getRecurringTransactionsDue d now)"
      by (auto simp: due_definitions_def)
    then have "a \<in> set (accounts d)" "a_id a = r_accountId r"
      "c \<in> set (categories d)" "c_id c = r_categoryId r"
      by (simp_all add: due_row_member)
    then have "account_exists d (r_accountId r)" "category_exists d (r_categoryId r)"
      by (simp_all add: account_row_exists category_row_exists)
    with assms show False by simp
  qed
  moreover have "filter (\<lambda>a. a_id a = r_accountId r) (accounts d) = []
                 \<or> filter (\<lambda>c. c_id c = r_categoryId r) (categories d) = []"
    using assms account_row_exists category_row_exists by (fastforce simp: filter_empty_conv)
  then have "getRecurringTransactionsDue
              (d\<lparr>recurringTransactions := filter (\<lambda>x. x \<noteq> r) (recurringTransactions d)\<rparr>) now
             = getRecurringTransactionsDue d now"
    unfolding getRecurringTransactionsDue_def
    using due_rows_without[of r "accounts d" "categories d"
            "\<lambda>r. r_isActive r \<and> r_nextRunDate r \<le> now" "recurringTransactions d"]
    by simp
  ultimately show ?thesis by simp
qed

theorem dangling_definition_omitted_witness:
  "\<not> account_exists (scheduler_db (Number 0) (Number 0) [] [example_definition 1 9 0, example_definition 2 1 0])
        (r_accountId (example_definition 1 9 0))
   \<and> r_isActive (example_definition 1 9 0) \<and> r_nextRunDate (example_definition 1 9 0) \<le> 43200000
   \<and> example_definition 1 9 0
        \<notin> set (due_definitions
                 (scheduler_db (Number 0) (Number 0) [] [example_definition 1 9 0, example_definition 2 1 0]) 43200000)
   \<and> due_definitions (scheduler_db (Number 0) (Number 0) [] [example_definition 1 9 0, example_definition 2 1 0]) 43200000
       = [example_definition 2 1 0]"
proof -
  have h: "\<not> account_exists (scheduler_db (Number 0) (Number 0) [] [example_definition 1 9 0, example_definition 2 1 0])
        (r_accountId (example_definition 1 9 0))"
    by code_simp
  then have "\<not> account_exists (scheduler_db (Number 0) (Number 0) [] [example_definition 1 9 0, example_definition 2 1 0])
        (r_accountId (example_definition 1 9 0))
      \<or> \<not> category_exists (scheduler_db (Number 0) (Number 0) [] [example_definition 1 9 0, example_definition 2 1 0])
        (r_categoryId (example_definition 1 9 0))"
    by blast
  note t = dangling_definition_omitted[OF this, of 43200000]
  have a: "r_isActive (example_definition 1 9 0)"
    and b: "r_nextRunDate (example_definition 1 9 0) \<le> 43200000"
    and c: "due_definitions (scheduler_db (Number 0) (Number 0) [] [example_definition 1 9 0, example_definition 2 1 0]) 43200000
       = [example_definition 2 1 0]"
    by code_simp+
  from t h a b c show ?thesis by blast
qed

end
